theory Spec2Isabelle
  imports Main "HOL-Library.AList"
begin

section \<open>JavaScript strings and ObjectIds\<close>

text \<open>
  A JavaScript string is a list of code units; the model keeps the code units below 256
  (one \<^typ>\<open>char\<close> each). \<open>String.prototype.trim\<close> strips white space and line
  terminators from both ends; below 256 these are the code units 9 to 13, 32 and 160.
  A request field that may be missing (\<open>undefined\<close>) is a \<^typ>\<open>string option\<close>;
  of the strings only the empty one is falsy.
\<close>

definition isWhiteSpace :: "char \<Rightarrow> bool" where
  "isWhiteSpace c = (of_char c \<in> {9, 10, 11, 12, 13, 32, 160 :: nat})"

definition trim :: "string \<Rightarrow> string" where
  "trim s = rev (dropWhile isWhiteSpace (rev (dropWhile isWhiteSpace s)))"

definition truthy :: "string option \<Rightarrow> bool" where
  "truthy v = (case v of None \<Rightarrow> False | Some s \<Rightarrow> s \<noteq> [])"

text \<open>
  An ObjectId is kept as its canonical string, 24 lower-case hexadecimal digits. A string
  that is handed to a path of type ObjectId is cast: 24 hexadecimal digits of either case
  are accepted, anything else is a CastError. The driver's generator of fresh ObjectIds is
  a counter, printed with 24 digits.
\<close>

type_synonym oid = string

definition isHexDigit :: "char \<Rightarrow> bool" where
  "isHexDigit c = (c \<in> set ''0123456789abcdefABCDEF'')"

definition lowerHex :: "char \<Rightarrow> char" where
  "lowerHex c = (if c \<in> set ''ABCDEF'' then char_of (of_char c + (32 :: nat)) else c)"

definition castObjectId :: "string \<Rightarrow> oid option" where
  "castObjectId s =
     (if length s = 24 \<and> list_all isHexDigit s then Some (map lowerHex s) else None)"

fun hexDigits :: "nat \<Rightarrow> nat \<Rightarrow> string" where
  "hexDigits 0 n = []"
| "hexDigits (Suc k) n = hexDigits k (n div 16) @ [''0123456789abcdef'' ! (n mod 16)]"

definition newObjectId :: "nat \<Rightarrow> oid" where
  "newObjectId n = hexDigits 24 n"

section \<open>Documents and schemas\<close>

text \<open>
  A document of the database, and an object literal handed to a model, is a list of
  fields. The values the controllers handle are strings, ObjectIds, arrays of strings
  (\<open>tags\<close>) and dates (milliseconds, for the timestamps).
\<close>

datatype val = VStr string | VId oid | VArr "string list" | VDate nat

type_synonym obj = "(string \<times> val) list"

datatype error =
    Error string
  | CastError
  | ValidationError
  | TypeError
  | DocumentNotFoundError
  | Unmodelled

text \<open>
  A schema declares paths. Of the options of a path the model keeps the ones the schemas
  of the repository use on the paths the controllers touch: \<open>type\<close>, \<open>required\<close>,
  \<open>trim\<close>, \<open>maxlength\<close>, \<open>enum\<close> and \<open>default\<close>. Of the options of a schema it keeps
  \<open>timestamps\<close>, \<open>strictQuery\<close> (its default differs between the releases of the
  library: a filter on a path that the schema does not declare is dropped when it is set
  and handed to the database as it is otherwise) and the hook registered by
  \<open>schema.pre('save', ...)\<close>, a function of \<open>isModified\<close> and the document that may throw. \<open>strict\<close>
  is never switched off in the repository: a field that the schema does not declare is
  neither stored nor readable as a property of a document.
\<close>

datatype ptype = TString | TObjectId | TStrings | TDate

record spath =
  ptype :: ptype
  required :: bool
  trim_set :: bool
  maxlength :: "nat option"
  enum_values :: "string list option"
  default_val :: "val option"

record schema =
  paths :: "(string \<times> spath) list"
  timestamps :: bool
  strictQuery :: bool
  pre_save :: "(string \<Rightarrow> bool) \<Rightarrow> obj \<Rightarrow> error + obj"

definition plain :: "ptype \<Rightarrow> spath" where
  "plain t = \<lparr>ptype = t, required = False, trim_set = False, maxlength = None,
     enum_values = None, default_val = None\<rparr>"

definition path_of :: "schema \<Rightarrow> string \<Rightarrow> spath option" where
  "path_of S k =
     (if k = ''_id'' then Some (plain TObjectId)
      else case map_of (paths S) k of
        Some p \<Rightarrow> Some p
      | None \<Rightarrow>
          if timestamps S \<and> (k = ''createdAt'' \<or> k = ''updatedAt'')
          then Some (plain TDate) else None)"

text \<open>Casting a value to the type of a path, with the path's setter (\<open>trim\<close>).\<close>

fun castv :: "spath \<Rightarrow> val \<Rightarrow> val option" where
  "castv p (VStr s) =
     (case ptype p of
        TString \<Rightarrow> Some (VStr (if trim_set p then trim s else s))
      | TObjectId \<Rightarrow> map_option VId (castObjectId s)
      | TStrings \<Rightarrow> Some (VArr [s])
      | TDate \<Rightarrow> None)"
| "castv p (VId i) =
     (case ptype p of
        TString \<Rightarrow> Some (VStr (if trim_set p then trim i else i))
      | TObjectId \<Rightarrow> Some (VId i)
      | TStrings \<Rightarrow> Some (VArr [i])
      | TDate \<Rightarrow> None)"
| "castv p (VArr xs) = (case ptype p of TStrings \<Rightarrow> Some (VArr xs) | _ \<Rightarrow> None)"
| "castv p (VDate t) = (case ptype p of TDate \<Rightarrow> Some (VDate t) | _ \<Rightarrow> None)"

text \<open>
  \<open>doc.k\<close> on a document that a query loaded from the stored document \<open>d\<close>: only the
  paths of the schema are properties, any other name reads \<open>undefined\<close> (\<open>None\<close>); a
  path that the stored document lacks reads its default.
\<close>

definition get_prop :: "schema \<Rightarrow> obj \<Rightarrow> string \<Rightarrow> val option" where
  "get_prop S d k =
     (case path_of S k of
        None \<Rightarrow> None
      | Some p \<Rightarrow> (case map_of d k of None \<Rightarrow> default_val p | Some v \<Rightarrow> Some v))"

text \<open>\<open>x.toString()\<close>: a TypeError on \<open>undefined\<close>; the text of a date is not modelled.\<close>

fun joinComma :: "string list \<Rightarrow> string" where
  "joinComma [] = []"
| "joinComma [x] = x"
| "joinComma (x # y # ys) = x @ '','' @ joinComma (y # ys)"

fun toString :: "val option \<Rightarrow> error + string" where
  "toString None = Inl TypeError"
| "toString (Some (VStr s)) = Inr s"
| "toString (Some (VId i)) = Inr i"
| "toString (Some (VArr xs)) = Inr (joinComma xs)"
| "toString (Some (VDate t)) = Inl Unmodelled"

subsection \<open>Documents in memory\<close>

text \<open>
  A document in memory carries its fields, the paths modified since it was loaded, the
  paths that got their default when it was loaded, the paths whose assigned value could
  not be cast (reported when the document is validated) and whether it is new.
\<close>

record document =
  rawDoc :: obj
  modifiedPaths :: "string list"
  defaultPaths :: "string list"
  invalid :: "string list"
  isNew :: bool

text \<open>
  Loading a stored document applies the default of every path the stored document lacks;
  the next \<open>save()\<close> of the document writes these paths too.
\<close>

fun missing_defaults :: "(string \<times> spath) list \<Rightarrow> obj \<Rightarrow> obj" where
  "missing_defaults [] d = []"
| "missing_defaults ((k, p) # ps) d =
     (case default_val p of
        None \<Rightarrow> missing_defaults ps d
      | Some v \<Rightarrow>
          if map_of d k = None then (k, v) # missing_defaults ps d
          else missing_defaults ps d)"

definition hydrate :: "schema \<Rightarrow> obj \<Rightarrow> document" where
  "hydrate S d =
     \<lparr>rawDoc = d @ missing_defaults (paths S) d, modifiedPaths = [],
      defaultPaths = map fst (missing_defaults (paths S) d), invalid = [], isNew = False\<rparr>"

fun init_paths :: "(string \<times> spath) list \<Rightarrow> obj \<Rightarrow> obj \<times> string list" where
  "init_paths [] given = ([], [])"
| "init_paths ((k, p) # ps) given =
     (case init_paths ps given of (d, bad) \<Rightarrow>
        (case map_of given k of
           None \<Rightarrow> (case default_val p of None \<Rightarrow> (d, bad) | Some v \<Rightarrow> ((k, v) # d, bad))
         | Some v \<Rightarrow>
             (case castv p v of None \<Rightarrow> (d, k # bad) | Some v' \<Rightarrow> ((k, v') # d, bad))))"

text \<open>\<open>new Model(given)\<close>: the fields of \<open>given\<close> that the schema declares, cast, and the
  defaults of the others; \<open>i\<close> is the fresh ObjectId.\<close>

definition new_doc :: "schema \<Rightarrow> oid \<Rightarrow> obj \<Rightarrow> document" where
  "new_doc S i given =
     (case init_paths (paths S) given of (d, bad) \<Rightarrow>
        \<lparr>rawDoc = (''_id'', VId i) # d,
         modifiedPaths = filter (\<lambda>k. map_of given k \<noteq> None) (map fst (paths S)),
         defaultPaths = [], invalid = bad, isNew = True\<rparr>)"

text \<open>\<open>doc.k = v\<close>: ignored for a name that is not a path; a value equal to the current
  one does not mark the path modified; \<open>undefined\<close> unsets the path.\<close>

definition set_path :: "schema \<Rightarrow> document \<Rightarrow> string \<Rightarrow> val option \<Rightarrow> document" where
  "set_path S doc k v =
     (case path_of S k of
        None \<Rightarrow> doc
      | Some p \<Rightarrow>
          (case v of
             None \<Rightarrow>
               if map_of (rawDoc doc) k = None then doc
               else doc\<lparr>rawDoc := AList.delete k (rawDoc doc),
                        modifiedPaths := k # modifiedPaths doc\<rparr>
           | Some x \<Rightarrow>
               (case castv p x of
                  None \<Rightarrow> doc\<lparr>invalid := k # invalid doc\<rparr>
                | Some x' \<Rightarrow>
                    if map_of (rawDoc doc) k = Some x' then doc
                    else doc\<lparr>rawDoc := AList.update k x' (rawDoc doc),
                             modifiedPaths := k # modifiedPaths doc\<rparr>)))"

subsection \<open>Validation and saving\<close>

definition path_valid :: "spath \<Rightarrow> val option \<Rightarrow> bool" where
  "path_valid p v =
     (case v of
        None \<Rightarrow> \<not> required p
      | Some (VStr s) \<Rightarrow>
          (if required p then s \<noteq> [] else True) \<and>
          (case maxlength p of None \<Rightarrow> True | Some n \<Rightarrow> length s \<le> n) \<and>
          (case enum_values p of None \<Rightarrow> True | Some vs \<Rightarrow> s \<in> set vs)
      | Some _ \<Rightarrow> True)"

definition validate :: "schema \<Rightarrow> document \<Rightarrow> bool" where
  "validate S doc =
     (invalid doc = [] \<and>
      list_all (\<lambda>(k, p). path_valid p (map_of (rawDoc doc) k)) (paths S))"

definition has_id :: "val option \<Rightarrow> obj \<Rightarrow> bool" where
  "has_id i d = (i \<noteq> None \<and> map_of d ''_id'' = i)"

fun update_first :: "('a \<Rightarrow> bool) \<Rightarrow> ('a \<Rightarrow> 'a) \<Rightarrow> 'a list \<Rightarrow> 'a list" where
  "update_first P f [] = []"
| "update_first P f (x # xs) = (if P x then f x # xs else x # update_first P f xs)"

fun remove_first :: "('a \<Rightarrow> bool) \<Rightarrow> 'a list \<Rightarrow> 'a list" where
  "remove_first P [] = []"
| "remove_first P (x # xs) = (if P x then xs else x # remove_first P xs)"

text \<open>The timestamps of \<open>timestamps: true\<close>: both are set on a new document, \<open>updatedAt\<close>
  on a modified one.\<close>

definition stamp :: "schema \<Rightarrow> nat \<Rightarrow> document \<Rightarrow> obj" where
  "stamp S now doc =
     (if \<not> timestamps S then rawDoc doc
      else if isNew doc then
        AList.update ''updatedAt'' (VDate now)
          (AList.update ''createdAt'' (VDate now) (rawDoc doc))
      else if modifiedPaths doc \<noteq> [] then AList.update ''updatedAt'' (VDate now) (rawDoc doc)
      else rawDoc doc)"

text \<open>
  \<open>doc.save()\<close> on the collection \<open>coll\<close>: validation first, then the timestamps and the
  schema's own pre-save hook, then the write. A new document is inserted. A loaded one
  that was modified, or that got a default when it was loaded, replaces the stored
  document of its \<open>_id\<close> (one handler runs at a time, so the stored document is the
  loaded one), and the write fails when there is none. A loaded one with neither is not
  written. The timestamp \<open>updatedAt\<close> follows \<open>isModified()\<close>, which a default alone does
  not make true.
\<close>

definition save ::
  "schema \<Rightarrow> nat \<Rightarrow> document \<Rightarrow> obj list \<Rightarrow> error + (obj \<times> obj list)" where
  "save S now doc coll =
     (if \<not> validate S doc then Inl ValidationError
      else
        case pre_save S (\<lambda>k. k \<in> set (modifiedPaths doc)) (stamp S now doc) of
          Inl e \<Rightarrow> Inl e
        | Inr d \<Rightarrow>
            if isNew doc then Inr (d, coll @ [d])
            else if modifiedPaths doc = [] \<and> defaultPaths doc = [] then Inr (d, coll)
            else if list_ex (has_id (map_of d ''_id'')) coll
            then Inr (d, update_first (has_id (map_of d ''_id'')) (\<lambda>_. d) coll)
            else Inl DocumentNotFoundError)"

text \<open>\<open>Model.create(given)\<close> is \<open>new Model(given).save()\<close>.\<close>

definition create ::
  "schema \<Rightarrow> nat \<Rightarrow> oid \<Rightarrow> obj \<Rightarrow> obj list \<Rightarrow> error + (obj \<times> obj list)" where
  "create S now i given coll = save S now (new_doc S i given) coll"

text \<open>\<open>doc.deleteOne()\<close> removes the stored document of the same \<open>_id\<close>.\<close>

definition deleteOne :: "obj \<Rightarrow> obj list \<Rightarrow> obj list" where
  "deleteOne d coll = remove_first (has_id (map_of d ''_id'')) coll"

subsection \<open>Queries\<close>

text \<open>
  A filter is cast against the schema: the value of a declared path is cast to the type
  of the path (a CastError when that fails, \<open>None\<close> below); a path that is not declared
  is dropped under \<open>strictQuery\<close> and kept as it is otherwise. A document matches when
  it has every field of the filter with an equal value.
\<close>

fun cast_filter :: "schema \<Rightarrow> obj \<Rightarrow> obj option" where
  "cast_filter S [] = Some []"
| "cast_filter S ((k, v) # f) =
     (case cast_filter S f of
        None \<Rightarrow> None
      | Some f' \<Rightarrow>
          (case path_of S k of
             None \<Rightarrow> if strictQuery S then Some f' else Some ((k, v) # f')
           | Some p \<Rightarrow>
               (case castv (p\<lparr>trim_set := False\<rparr>) v of
                  None \<Rightarrow> None
                | Some v' \<Rightarrow> Some ((k, v') # f'))))"

definition matches :: "obj \<Rightarrow> obj \<Rightarrow> bool" where
  "matches f d = list_all (\<lambda>(k, v). map_of d k = Some v) f"

definition find_docs :: "schema \<Rightarrow> obj list \<Rightarrow> obj \<Rightarrow> error + obj list" where
  "find_docs S coll f =
     (case cast_filter S f of
        None \<Rightarrow> Inl CastError
      | Some f' \<Rightarrow> Inr (filter (matches f') coll))"

definition findOne :: "schema \<Rightarrow> obj list \<Rightarrow> obj \<Rightarrow> error + obj option" where
  "findOne S coll f =
     (case cast_filter S f of
        None \<Rightarrow> Inl CastError
      | Some f' \<Rightarrow> Inr (find (matches f') coll))"

text \<open>\<open>Model.findById(id)\<close>; \<open>findById(undefined)\<close> finds nothing.\<close>

definition findById :: "schema \<Rightarrow> obj list \<Rightarrow> string option \<Rightarrow> error + obj option" where
  "findById S coll i =
     (case i of None \<Rightarrow> Inr None | Some s \<Rightarrow> findOne S coll [(''_id'', VStr s)])"

text \<open>
  \<open>Model.findOneAndUpdate(filter, update, {new: true})\<close>: the update is cast like a
  document's fields (setters run, undeclared fields are dropped), no validator runs, the
  first matching document gets the fields of the update and, with \<open>timestamps\<close>, a new
  \<open>updatedAt\<close>; the result is the document after the update, or \<open>null\<close>.
\<close>

fun cast_update :: "schema \<Rightarrow> obj \<Rightarrow> obj option" where
  "cast_update S [] = Some []"
| "cast_update S ((k, v) # u) =
     (case cast_update S u of
        None \<Rightarrow> None
      | Some u' \<Rightarrow>
          (case path_of S k of
             None \<Rightarrow> Some u'
           | Some p \<Rightarrow> (case castv p v of None \<Rightarrow> None | Some v' \<Rightarrow> Some ((k, v') # u'))))"

definition apply_update :: "schema \<Rightarrow> nat \<Rightarrow> obj \<Rightarrow> obj \<Rightarrow> obj" where
  "apply_update S now u d =
     (let d' = foldr (\<lambda>(k, v). AList.update k v) u d
      in if timestamps S then AList.update ''updatedAt'' (VDate now) d' else d')"

definition findOneAndUpdate ::
  "schema \<Rightarrow> nat \<Rightarrow> obj list \<Rightarrow> obj \<Rightarrow> obj \<Rightarrow> error + (obj \<times> obj list) option" where
  "findOneAndUpdate S now coll f u =
     (case cast_filter S f of
        None \<Rightarrow> Inl CastError
      | Some f' \<Rightarrow>
          (case cast_update S u of
             None \<Rightarrow> Inl CastError
           | Some u' \<Rightarrow>
               (case find (matches f') coll of
                  None \<Rightarrow> Inr None
                | Some d \<Rightarrow>
                    Inr (Some (apply_update S now u' d,
                               update_first (matches f') (apply_update S now u') coll)))))"

text \<open>\<open>find(...).sort({createdAt: -1})\<close>: newest first, a document without the date last.\<close>

definition createdAt_key :: "obj \<Rightarrow> int" where
  "createdAt_key d = (case map_of d ''createdAt'' of Some (VDate t) \<Rightarrow> int t | _ \<Rightarrow> - 1)"

definition sort_createdAt_desc :: "obj list \<Rightarrow> obj list" where
  "sort_createdAt_desc ds = sort_key (\<lambda>d. - createdAt_key d) ds"

text \<open>An object literal: a property whose value is \<open>undefined\<close> counts as not given.\<close>

fun object :: "(string \<times> val option) list \<Rightarrow> obj" where
  "object [] = []"
| "object ((k, None) # kvs) = object kvs"
| "object ((k, Some v) # kvs) = (k, v) # object kvs"

section \<open>The models of the repository\<close>

subsection \<open>models/Entry.js\<close>

definition sanitizeTags :: "string list \<Rightarrow> string list" where
  "sanitizeTags tags = filter (\<lambda>tag. length tag > 0) (map (\<lambda>tag. trim tag) tags)"

definition entrySchema_pre_save :: "(string \<Rightarrow> bool) \<Rightarrow> obj \<Rightarrow> error + obj" where
  "entrySchema_pre_save isModified this =
     (if isModified ''tags'' then
        (case map_of this ''tags'' of
           Some (VArr tags) \<Rightarrow> Inr (AList.update ''tags'' (VArr (sanitizeTags tags)) this)
         | _ \<Rightarrow> Inl TypeError)
      else Inr this)"

text \<open>No filter of the controllers on an Entry names an undeclared path, so the value of
  \<open>strictQuery\<close> is immaterial for this schema.\<close>

definition entrySchema :: schema where
  "entrySchema =
     \<lparr>paths =
        [(''user'', (plain TObjectId)\<lparr>required := True\<rparr>),
         (''title'', (plain TString)\<lparr>required := True, trim_set := True,
                                      maxlength := Some 100\<rparr>),
         (''content'', (plain TString)\<lparr>required := True\<rparr>),
         (''mood'', (plain TString)\<lparr>enum_values :=
            Some [''happy'', ''sad'', ''neutral'', ''angry'', ''excited'', ''anxious'',
                  ''grateful'', ''tired'', ''other'']\<rparr>),
         (''tags'', (plain TStrings)\<lparr>default_val := Some (VArr [])\<rparr>)],
      timestamps = True, strictQuery = False, pre_save = entrySchema_pre_save\<rparr>"

subsection \<open>models/Version.js\<close>

text \<open>The parameter is the schema's \<open>strictQuery\<close>, which the file leaves to the
  library's default.\<close>

definition versionSchema :: "bool \<Rightarrow> schema" where
  "versionSchema sq =
     \<lparr>paths =
        [(''entry'', (plain TObjectId)\<lparr>required := True\<rparr>),
         (''user'', (plain TObjectId)\<lparr>required := True\<rparr>),
         (''title'', (plain TString)\<lparr>required := True, trim_set := True\<rparr>),
         (''content'', (plain TString)\<lparr>required := True\<rparr>),
         (''tags'', (plain TStrings)\<lparr>default_val := Some (VArr [])\<rparr>),
         (''note'', (plain TString)\<lparr>trim_set := True\<rparr>),
         (''source'', (plain TString)\<lparr>required := True,
            enum_values := Some [''auto'', ''manual'', ''restore''],
            default_val := Some (VStr ''auto'')\<rparr>)],
      timestamps = True, strictQuery = sq, pre_save = (\<lambda>isModified this. Inr this)\<rparr>"

subsection \<open>models/User.js\<close>

text \<open>Users are only looked up by \<open>_id\<close>; the options of the paths that play no part in
  that (\<open>unique\<close>, \<open>lowercase\<close>, \<open>match\<close>, \<open>minlength\<close>, \<open>select\<close>, the default of
  \<open>createdAt\<close>) and the password hook are left out.\<close>

definition userSchema :: schema where
  "userSchema =
     \<lparr>paths =
        [(''name'', (plain TString)\<lparr>required := True, trim_set := True,
                                     maxlength := Some 50\<rparr>),
         (''email'', (plain TString)\<lparr>required := True\<rparr>),
         (''password'', (plain TString)\<lparr>required := True\<rparr>),
         (''role'', (plain TString)\<lparr>enum_values := Some [''user'', ''admin''],
                                     default_val := Some (VStr ''user'')\<rparr>),
         (''createdAt'', plain TDate)],
      timestamps = False, strictQuery = False, pre_save = (\<lambda>isModified this. Inr this)\<rparr>"

section \<open>The database\<close>

record store =
  users :: "obj list"
  entries :: "obj list"
  versions :: "obj list"
  idCounter :: nat

text \<open>\<open>versionSchema.statics.createFromEntry\<close> (\<open>this\<close> is the Version model).\<close>

definition createFromEntry ::
  "bool \<Rightarrow> nat \<Rightarrow> store \<Rightarrow> obj option \<Rightarrow> string \<Rightarrow> error + (obj \<times> store)" where
  "createFromEntry sq now st entry source =
     (case entry of
        None \<Rightarrow> Inl (Error ''A valid entry document must be provided to create a version.'')
      | Some e \<Rightarrow>
          if get_prop entrySchema e ''_id'' = None
          then Inl (Error ''A valid entry document must be provided to create a version.'')
          else
            (case create (versionSchema sq) now (newObjectId (idCounter st))
                    (object
                       [(''entry'', get_prop entrySchema e ''_id''),
                        (''user'', get_prop entrySchema e ''user''),
                        (''title'', get_prop entrySchema e ''title''),
                        (''content'', get_prop entrySchema e ''content''),
                        (''tags'', get_prop entrySchema e ''tags''),
                        (''source'', Some (VStr source))])
                    (versions st) of
               Inl err \<Rightarrow> Inl err
             | Inr (v, vs) \<Rightarrow>
                 Inr (v, st\<lparr>versions := vs, idCounter := Suc (idCounter st)\<rparr>)))"

section \<open>The HTTP handlers\<close>

text \<open>
  A handler gets the id of the authenticated user (\<open>req.user\<close>, bound by the \<open>protect\<close>
  middleware), the parameters of its route, the fields of the body it reads (strings, or
  missing), the time and the database. Its body either answers or throws with the status
  set so far (200 when none was set); \<open>asyncHandler\<close> hands what is thrown to
  \<open>errorHandler\<close>. Every handler runs from start to end on the database it is given.
\<close>

datatype json =
    JDoc obj
  | JDocs "obj list"
  | JMessage string
  | JMessageEntry string obj
  | JError error

record response =
  status :: nat
  json :: json

definition errorHandler :: "nat \<Rightarrow> error \<Rightarrow> response" where
  "errorHandler statusCode err =
     \<lparr>status = (if statusCode = 200 then 500 else statusCode), json = JError err\<rparr>"

definition asyncHandler :: "((nat \<times> error) + response) \<times> store \<Rightarrow> response \<times> store" where
  "asyncHandler r =
     (case r of
        (Inl (statusCode, err), st) \<Rightarrow> (errorHandler statusCode err, st)
      | (Inr res, st) \<Rightarrow> (res, st))"

subsection \<open>controllers/journalController.js\<close>

definition createJournal ::
  "nat \<Rightarrow> store \<Rightarrow> oid \<Rightarrow> string option \<Rightarrow> string option \<Rightarrow> response \<times> store" where
  "createJournal now st uid title content = asyncHandler
     (if \<not> truthy title \<or> \<not> truthy content
      then (Inl (400, Error ''Please provide both a title and content for the journal entry.''), st)
      else
        (case save entrySchema now
                (new_doc entrySchema (newObjectId (idCounter st))
                   (object [(''title'', map_option VStr title),
                            (''content'', map_option VStr content),
                            (''user'', Some (VId uid))]))
                (entries st) of
           Inl err \<Rightarrow> (Inl (200, err), st)
         | Inr (createdJournal, es) \<Rightarrow>
             (Inr \<lparr>status = 201, json = JDoc createdJournal\<rparr>,
              st\<lparr>entries := es, idCounter := Suc (idCounter st)\<rparr>)))"

text \<open>\<open>title || journal.title\<close>\<close>

definition or_else :: "string option \<Rightarrow> val option \<Rightarrow> val option" where
  "or_else given current = (if truthy given then map_option VStr given else current)"

definition updateJournal ::
  "nat \<Rightarrow> store \<Rightarrow> oid \<Rightarrow> string \<Rightarrow> string option \<Rightarrow> string option \<Rightarrow> response \<times> store" where
  "updateJournal now st uid jid title content = asyncHandler
     (case findById entrySchema (entries st) (Some jid) of
        Inl err \<Rightarrow> (Inl (200, err), st)
      | Inr None \<Rightarrow> (Inl (404, Error ''Journal entry not found.''), st)
      | Inr (Some journal) \<Rightarrow>
          (case toString (get_prop entrySchema journal ''user'') of
             Inl err \<Rightarrow> (Inl (200, err), st)
           | Inr owner \<Rightarrow>
               if owner \<noteq> uid
               then (Inl (401, Error ''You are not authorized to update this journal entry.''), st)
               else
                 (let j1 = set_path entrySchema (hydrate entrySchema journal) ''title''
                             (or_else title (get_prop entrySchema journal ''title''));
                      j2 = set_path entrySchema j1 ''content''
                             (or_else content (get_prop entrySchema journal ''content''))
                  in case save entrySchema now j2 (entries st) of
                       Inl err \<Rightarrow> (Inl (200, err), st)
                     | Inr (updatedJournal, es) \<Rightarrow>
                         (Inr \<lparr>status = 200, json = JDoc updatedJournal\<rparr>,
                          st\<lparr>entries := es\<rparr>))))"

definition deleteJournal :: "store \<Rightarrow> oid \<Rightarrow> string \<Rightarrow> response \<times> store" where
  "deleteJournal st uid jid = asyncHandler
     (case findById entrySchema (entries st) (Some jid) of
        Inl err \<Rightarrow> (Inl (200, err), st)
      | Inr None \<Rightarrow> (Inl (404, Error ''Journal entry not found.''), st)
      | Inr (Some journal) \<Rightarrow>
          (case toString (get_prop entrySchema journal ''user'') of
             Inl err \<Rightarrow> (Inl (200, err), st)
           | Inr owner \<Rightarrow>
               if owner \<noteq> uid
               then (Inl (401, Error ''You are not authorized to delete this journal entry.''), st)
               else (Inr \<lparr>status = 200, json = JMessage ''Journal entry successfully deleted.''\<rparr>,
                     st\<lparr>entries := deleteOne journal (entries st)\<rparr>)))"

subsection \<open>controllers/versionController.js\<close>

text \<open>
  The controller imports the Version model (``assuming this model exists''); the handlers
  take it as the parameter \<open>Version\<close>. In the repository it is the model of
  \<^const>\<open>versionSchema\<close>.
\<close>

definition getEntryVersions ::
  "schema \<Rightarrow> store \<Rightarrow> oid \<Rightarrow> string \<Rightarrow> response \<times> store" where
  "getEntryVersions Version st uid entryId = asyncHandler
     (case findOne entrySchema (entries st) [(''_id'', VStr entryId), (''user'', VStr uid)] of
        Inl err \<Rightarrow> (Inl (200, err), st)
      | Inr None \<Rightarrow>
          (Inl (404, Error ''Entry not found or you do not have permission to view it.''), st)
      | Inr (Some entry) \<Rightarrow>
          (case find_docs Version (versions st) [(''entryId'', VStr entryId)] of
             Inl err \<Rightarrow> (Inl (200, err), st)
           | Inr vs \<Rightarrow> (Inr \<lparr>status = 200, json = JDocs (sort_createdAt_desc vs)\<rparr>, st)))"

definition restoreVersion ::
  "schema \<Rightarrow> nat \<Rightarrow> store \<Rightarrow> oid \<Rightarrow> string \<Rightarrow> string \<Rightarrow> response \<times> store" where
  "restoreVersion Version now st uid entryId versionId = asyncHandler
     (case findById entrySchema (entries st) (Some entryId) of
        Inl err \<Rightarrow> (Inl (200, err), st)
      | Inr None \<Rightarrow> (Inl (403, Error ''You are not authorized to modify this entry.''), st)
      | Inr (Some entry) \<Rightarrow>
          (case toString (get_prop entrySchema entry ''user'') of
             Inl err \<Rightarrow> (Inl (200, err), st)
           | Inr owner \<Rightarrow>
               if owner \<noteq> uid
               then (Inl (403, Error ''You are not authorized to modify this entry.''), st)
               else
                 (case findById Version (versions st) (Some versionId) of
                    Inl err \<Rightarrow> (Inl (200, err), st)
                  | Inr None \<Rightarrow>
                      (Inl (404, Error ''Version to restore not found for this entry.''), st)
                  | Inr (Some versionToRestore) \<Rightarrow>
                      (case toString (get_prop Version versionToRestore ''entryId'') of
                         Inl err \<Rightarrow> (Inl (200, err), st)
                       | Inr of_entry \<Rightarrow>
                           if of_entry \<noteq> entryId
                           then (Inl (404, Error ''Version to restore not found for this entry.''), st)
                           else
                             (case create Version now (newObjectId (idCounter st))
                                     (object
                                        [(''entryId'', get_prop entrySchema entry ''_id''),
                                         (''title'', get_prop entrySchema entry ''title''),
                                         (''content'', get_prop entrySchema entry ''content'')])
                                     (versions st) of
                                Inl err \<Rightarrow> (Inl (200, err), st)
                              | Inr (snapshot, vs) \<Rightarrow>
                                  (let st1 = st\<lparr>versions := vs, idCounter := Suc (idCounter st)\<rparr>;
                                       e1 = set_path entrySchema (hydrate entrySchema entry) ''title''
                                              (get_prop Version versionToRestore ''title'');
                                       e2 = set_path entrySchema e1 ''content''
                                              (get_prop Version versionToRestore ''content'')
                                   in case save entrySchema now e2 (entries st1) of
                                        Inl err \<Rightarrow> (Inl (200, err), st1)
                                      | Inr (updatedEntry, es) \<Rightarrow>
                                          (Inr \<lparr>status = 200,
                                                json = JMessageEntry
                                                  ''Entry successfully restored to a previous version.''
                                                  updatedEntry\<rparr>,
                                           st1\<lparr>entries := es\<rparr>)))))))"

section \<open>The realtime gateway (realtime/socketServer.js)\<close>

text \<open>
  The gateway keeps the established connections, each with the user id bound to it
  (\<open>socket.userId\<close>), and the rooms the sockets joined. A socket is also a member of the
  room named by its own id. An emission goes to one socket (\<open>socket.emit\<close>), to a room
  (\<open>io.to(room).emit\<close>) or to a room without the sender (\<open>socket.to(room).emit\<close>).
\<close>

type_synonym sid = string

record gateway =
  sockets :: "(sid \<times> oid) list"
  rooms :: "(string \<times> sid) list"

datatype event =
    Typing oid "string option"
  | Synced "val option" "val option" string
  | SaveError string string

datatype target = ToSocket sid | ToRoom string | ToRoomExcept string sid

definition in_room :: "gateway \<Rightarrow> string \<Rightarrow> sid \<Rightarrow> bool" where
  "in_room g room s = ((room, s) \<in> set (rooms g) \<or> room = s)"

fun recipients :: "gateway \<Rightarrow> target \<Rightarrow> sid list" where
  "recipients g (ToSocket s) = filter (\<lambda>x. x = s) (map fst (sockets g))"
| "recipients g (ToRoom room) = filter (in_room g room) (map fst (sockets g))"
| "recipients g (ToRoomExcept room s) =
     filter (\<lambda>x. in_room g room x \<and> x \<noteq> s) (map fst (sockets g))"

text \<open>
  The middleware of \<open>io.use\<close>. \<open>jwt.verify\<close> with the server's secret is a parameter:
  it throws (\<open>None\<close>) or returns the payload, of which the middleware reads \<open>id\<close>
  (a string, or missing). The result is the error handed to \<open>next\<close> or the user id.
\<close>

definition io_use ::
  "(string \<Rightarrow> string option option) \<Rightarrow> store \<Rightarrow> string option \<Rightarrow> string + oid" where
  "io_use jwt_verify st token =
     (case token of
        None \<Rightarrow> Inl ''Authentication error: No token provided.''
      | Some t \<Rightarrow>
          if t = [] then Inl ''Authentication error: No token provided.''
          else
            (case jwt_verify t of
               None \<Rightarrow> Inl ''Authentication error: Invalid token.''
             | Some decoded_id \<Rightarrow>
                 (case findById userSchema (users st) decoded_id of
                    Inl err \<Rightarrow> Inl ''Authentication error: Invalid token.''
                  | Inr None \<Rightarrow> Inl ''Authentication error: User not found.''
                  | Inr (Some user) \<Rightarrow>
                      (case decoded_id of
                         None \<Rightarrow> Inl ''Authentication error: User not found.''
                       | Some i \<Rightarrow> Inr i))))"

text \<open>A connection attempt: the middleware runs first; only when it calls \<open>next()\<close>
  without an error is the connection established and are its handlers registered.\<close>

datatype handshake = Refused string | Accepted

definition connect ::
  "(string \<Rightarrow> string option option) \<Rightarrow> store \<Rightarrow> gateway \<Rightarrow> sid \<Rightarrow> string option
     \<Rightarrow> handshake \<times> gateway" where
  "connect jwt_verify st g s token =
     (case io_use jwt_verify st token of
        Inl reason \<Rightarrow> (Refused reason, g)
      | Inr userId \<Rightarrow> (Accepted, g\<lparr>sockets := AList.update s userId (sockets g)\<rparr>))"

definition on_joinEntry :: "gateway \<Rightarrow> sid \<Rightarrow> string option \<Rightarrow> gateway" where
  "on_joinEntry g s entryId =
     (case entryId of
        None \<Rightarrow> g
      | Some room \<Rightarrow> if room = [] then g else g\<lparr>rooms := List.insert (room, s) (rooms g)\<rparr>)"

definition on_typing ::
  "sid \<Rightarrow> oid \<Rightarrow> string option \<Rightarrow> string option \<Rightarrow> (target \<times> event) list" where
  "on_typing s userId entryId contentPreview =
     (case entryId of
        None \<Rightarrow> []
      | Some room \<Rightarrow>
          if room = [] then [] else [(ToRoomExcept room s, Typing userId contentPreview)])"

text \<open>The \<open>save\<close> event. \<open>content\<close> and \<open>title\<close> are the strings of the payload (what
  the update does with a missing one differs between the releases of the library and is
  left out).\<close>

definition on_save ::
  "nat \<Rightarrow> store \<Rightarrow> sid \<Rightarrow> oid \<Rightarrow> string option \<Rightarrow> string \<Rightarrow> string
     \<Rightarrow> (target \<times> event) list \<times> store" where
  "on_save now st s userId entryId content title =
     (case entryId of
        None \<Rightarrow> ([], st)
      | Some eid \<Rightarrow>
          if eid = [] then ([], st)
          else
            (case findOneAndUpdate entrySchema now (entries st)
                    [(''_id'', VStr eid), (''user'', VStr userId)]
                    [(''content'', VStr content), (''title'', VStr title)] of
               Inl err \<Rightarrow>
                 ([(ToSocket s, SaveError eid ''An error occurred on the server while saving.'')],
                  st)
             | Inr None \<Rightarrow>
                 ([(ToSocket s,
                    SaveError eid ''Save failed: Entry not found or permission denied.'')],
                  st)
             | Inr (Some (entry, es)) \<Rightarrow>
                 ([(ToRoom eid,
                    Synced (get_prop entrySchema entry ''_id'')
                      (get_prop entrySchema entry ''updatedAt'') ''Entry saved successfully.'')],
                  st\<lparr>entries := es\<rparr>)))"

text \<open>
  What a client sends on a socket. The handlers exist only on an established connection:
  a message on a socket that is not one has no handler and does nothing. On disconnect
  the transport takes the socket out of its rooms.
\<close>

datatype message =
    JoinEntry "string option"
  | TypingMsg "string option" "string option"
  | Save "string option" string string
  | Disconnect

definition on_message ::
  "nat \<Rightarrow> gateway \<times> store \<Rightarrow> sid \<Rightarrow> message
     \<Rightarrow> (target \<times> event) list \<times> gateway \<times> store" where
  "on_message now gs s m =
     (case gs of (g, st) \<Rightarrow>
        (case map_of (sockets g) s of
           None \<Rightarrow> ([], g, st)
         | Some userId \<Rightarrow>
             (case m of
                JoinEntry entryId \<Rightarrow> ([], on_joinEntry g s entryId, st)
              | TypingMsg entryId contentPreview \<Rightarrow>
                  (on_typing s userId entryId contentPreview, g, st)
              | Save entryId content title \<Rightarrow>
                  (case on_save now st s userId entryId content title of
                     (out, st') \<Rightarrow> (out, g, st'))
              | Disconnect \<Rightarrow>
                  ([], g\<lparr>sockets := AList.delete s (sockets g),
                         rooms := filter (\<lambda>(room, x). x \<noteq> s) (rooms g)\<rparr>, st))))"

text \<open>
  The gateway as a state machine: what arrives is a connection attempt on a new socket
  or a message on a socket, each at some time; the events emitted along a sequence of
  inputs are collected in order.
\<close>

datatype input = Connect sid "string option" | Message sid message

definition gateway_step ::
  "(string \<Rightarrow> string option option) \<Rightarrow> gateway \<times> store \<Rightarrow> nat \<times> input
     \<Rightarrow> (target \<times> event) list \<times> gateway \<times> store" where
  "gateway_step jwt_verify gs i =
     (case i of
        (now, Connect s token) \<Rightarrow> ([], snd (connect jwt_verify (snd gs) (fst gs) s token), snd gs)
      | (now, Message s m) \<Rightarrow> on_message now gs s m)"

fun run ::
  "(string \<Rightarrow> string option option) \<Rightarrow> gateway \<times> store \<Rightarrow> (nat \<times> input) list
     \<Rightarrow> (target \<times> event) list \<times> gateway \<times> store" where
  "run jwt_verify gs [] = ([], gs)"
| "run jwt_verify gs (i # is) =
     (case gateway_step jwt_verify gs i of
        (out, gs') \<Rightarrow> (case run jwt_verify gs' is of (outs, gs'') \<Rightarrow> (out @ outs, gs'')))"

section \<open>Naming and owning an entry\<close>

text \<open>
  The id string \<open>eid\<close> names the document \<open>d\<close> when it casts to the document's \<open>_id\<close>;
  the user id string \<open>uid\<close> owns \<open>d\<close> when it casts to the document's \<open>user\<close>.
\<close>

definition names_doc :: "string \<Rightarrow> obj \<Rightarrow> bool" where
  "names_doc eid d =
     (case castObjectId eid of None \<Rightarrow> False | Some i \<Rightarrow> map_of d ''_id'' = Some (VId i))"

definition owned_by :: "string \<Rightarrow> obj \<Rightarrow> bool" where
  "owned_by uid d =
     (case castObjectId uid of None \<Rightarrow> False | Some u \<Rightarrow> map_of d ''user'' = Some (VId u))"

text \<open>
  A stored document conforms to a schema when casting (with the setters) leaves the
  value of every declared path as it is: the values have the declared types and a
  trimmed path holds a trimmed string. The handlers keep the stored entries conforming
  to the Entry schema (shown in the last section).
\<close>

definition conforms :: "schema \<Rightarrow> obj \<Rightarrow> bool" where
  "conforms S d =
     list_all (\<lambda>(k, p). case map_of d k of None \<Rightarrow> True | Some v \<Rightarrow> castv p v = Some v)
       (paths S)"

text \<open>
  A credential is authentic when the token is present and not empty, verifies, carries
  an id, and the id names a stored user.
\<close>

definition authentic :: "(string \<Rightarrow> string option option) \<Rightarrow> store \<Rightarrow> string option \<Rightarrow> bool" where
  "authentic jwt_verify st token =
     (case token of
        None \<Rightarrow> False
      | Some t \<Rightarrow>
          t \<noteq> [] \<and>
          (case jwt_verify t of
             None \<Rightarrow> False
           | Some None \<Rightarrow> False
           | Some (Some i) \<Rightarrow> list_ex (names_doc i) (users st)))"

text \<open>The inputs of a sequence that are not messages on the socket \<open>s\<close>.\<close>

definition without_messages_of :: "sid \<Rightarrow> (nat \<times> input) list \<Rightarrow> (nat \<times> input) list" where
  "without_messages_of s is =
     filter (\<lambda>i. case snd i of Connect s' token \<Rightarrow> True | Message s' m \<Rightarrow> s' \<noteq> s) is"

text \<open>Every connection attempt on the socket \<open>s\<close> in a sequence lacks an authentic
  credential.\<close>

definition never_authentic ::
  "(string \<Rightarrow> string option option) \<Rightarrow> store \<Rightarrow> sid \<Rightarrow> (nat \<times> input) list \<Rightarrow> bool" where
  "never_authentic jwt_verify st s is =
     list_all (\<lambda>i. case snd i of
                     Connect s' token \<Rightarrow> s' \<noteq> s \<or> \<not> authentic jwt_verify st token
                   | Message s' m \<Rightarrow> True) is"

section \<open>Concrete data for the examples\<close>

text \<open>Two user ids, and an entry submitted with the tags of the tag-sanitation example.\<close>

definition ann :: oid where
  "ann = newObjectId 1"

definition bob :: oid where
  "bob = newObjectId 2"

definition tagged_given :: obj where
  "tagged_given =
     [(''title'', VStr ''Draft''), (''content'', VStr ''body''), (''user'', VId ann),
      (''tags'', VArr ['' work '', '''', ''Life ''])]"

definition tagged_entry :: obj where
  "tagged_entry =
     [(''_id'', VId (newObjectId 16)), (''user'', VId ann),
      (''title'', VStr ''Draft''), (''content'', VStr ''body''),
      (''tags'', VArr [''work'', ''Life'']),
      (''createdAt'', VDate 100), (''updatedAt'', VDate 100)]"

text \<open>
  A database with two users in which Ann has created the entry ``Draft'', and a gateway on
  which Ann (socket \<open>sockA\<close>) and Bob (socket \<open>sockB\<close>) are connected and have joined the
  room of that entry.
\<close>

definition store0 :: store where
  "store0 =
     \<lparr>users = [[(''_id'', VId ann), (''name'', VStr ''Ann'')],
               [(''_id'', VId bob), (''name'', VStr ''Bob'')]],
      entries = [], versions = [], idCounter = 16\<rparr>"

definition draft_entry :: obj where
  "draft_entry =
     [(''_id'', VId (newObjectId 16)), (''user'', VId ann),
      (''title'', VStr ''Draft''), (''content'', VStr ''body''), (''tags'', VArr []),
      (''createdAt'', VDate 100), (''updatedAt'', VDate 100)]"

definition store1 :: store where
  "store1 = store0\<lparr>entries := [draft_entry], idCounter := 17\<rparr>"

definition gateway1 :: gateway where
  "gateway1 =
     \<lparr>sockets = [(''sockA'', ann), (''sockB'', bob)],
      rooms = [(newObjectId 16, ''sockA''), (newObjectId 16, ''sockB'')]\<rparr>"

text \<open>
  Ann's entry after an update of its title at time 200. A database in which Ann's entry
  is stored without \<open>tags\<close>, and that entry after an update of its content at time 200.
\<close>

definition renamed_entry :: obj where
  "renamed_entry =
     [(''_id'', VId (newObjectId 16)), (''user'', VId ann),
      (''title'', VStr ''Plan''), (''content'', VStr ''body''), (''tags'', VArr []),
      (''createdAt'', VDate 100), (''updatedAt'', VDate 200)]"

definition bare_entry :: obj where
  "bare_entry =
     [(''_id'', VId (newObjectId 16)), (''user'', VId ann),
      (''title'', VStr ''Draft''), (''content'', VStr ''body''),
      (''createdAt'', VDate 100), (''updatedAt'', VDate 100)]"

definition bare_store :: store where
  "bare_store = store0\<lparr>entries := [bare_entry], idCounter := 17\<rparr>"

definition edited_entry :: obj where
  "edited_entry =
     [(''_id'', VId (newObjectId 16)), (''user'', VId ann),
      (''title'', VStr ''Draft''), (''content'', VStr ''new text''),
      (''createdAt'', VDate 100), (''updatedAt'', VDate 200), (''tags'', VArr [])]"

text \<open>
  The same database after Bob has created an entry of his own and a version has been
  taken of each entry with \<^const>\<open>createFromEntry\<close>.
\<close>

definition bobs_entry :: obj where
  "bobs_entry =
     [(''_id'', VId (newObjectId 17)), (''user'', VId bob),
      (''title'', VStr ''Notes''), (''content'', VStr ''private''), (''tags'', VArr []),
      (''createdAt'', VDate 101), (''updatedAt'', VDate 101)]"

definition draft_version :: obj where
  "draft_version =
     [(''_id'', VId (newObjectId 18)), (''entry'', VId (newObjectId 16)), (''user'', VId ann),
      (''title'', VStr ''Draft''), (''content'', VStr ''body''), (''tags'', VArr []),
      (''source'', VStr ''manual''), (''createdAt'', VDate 102), (''updatedAt'', VDate 102)]"

definition bobs_version :: obj where
  "bobs_version =
     [(''_id'', VId (newObjectId 19)), (''entry'', VId (newObjectId 17)), (''user'', VId bob),
      (''title'', VStr ''Notes''), (''content'', VStr ''private''), (''tags'', VArr []),
      (''source'', VStr ''manual''), (''createdAt'', VDate 103), (''updatedAt'', VDate 103)]"

definition store2 :: store where
  "store2 =
     store0\<lparr>entries := [draft_entry, bobs_entry],
            versions := [draft_version, bobs_version], idCounter := 20\<rparr>"

text \<open>
  The end-to-end scenario: Ann creates the entry ``Draft'', connects with a token that
  verifies to her id, joins the entry's room and saves three times over the socket, with
  the contents \<open>v1\<close>, \<open>v2\<close> and \<open>v3\<close>.
\<close>

definition ann_verify :: "string \<Rightarrow> string option option" where
  "ann_verify t = (if t = ''token-of-ann'' then Some (Some ann) else None)"

definition scenario_created :: "response \<times> store" where
  "scenario_created = createJournal 100 store0 ann (Some ''Draft'') (Some ''body'')"

definition scenario_connected :: "handshake \<times> gateway" where
  "scenario_connected =
     connect ann_verify (snd scenario_created) \<lparr>sockets = [], rooms = []\<rparr> ''sockA''
       (Some ''token-of-ann'')"

definition scenario_joined :: "(target \<times> event) list \<times> gateway \<times> store" where
  "scenario_joined =
     on_message 100 (snd scenario_connected, snd scenario_created) ''sockA''
       (JoinEntry (Some (newObjectId 16)))"

definition scenario_save1 :: "(target \<times> event) list \<times> gateway \<times> store" where
  "scenario_save1 =
     on_message 101 (snd scenario_joined) ''sockA'' (Save (Some (newObjectId 16)) ''v1'' ''Draft'')"

definition scenario_save2 :: "(target \<times> event) list \<times> gateway \<times> store" where
  "scenario_save2 =
     on_message 102 (snd scenario_save1) ''sockA'' (Save (Some (newObjectId 16)) ''v2'' ''Draft'')"

definition scenario_save3 :: "(target \<times> event) list \<times> gateway \<times> store" where
  "scenario_save3 =
     on_message 103 (snd scenario_save2) ''sockA'' (Save (Some (newObjectId 16)) ''v3'' ''Draft'')"

definition saved_entry :: "string \<Rightarrow> nat \<Rightarrow> obj" where
  "saved_entry content t =
     [(''_id'', VId (newObjectId 16)), (''user'', VId ann),
      (''title'', VStr ''Draft''), (''content'', VStr content), (''tags'', VArr []),
      (''createdAt'', VDate 100), (''updatedAt'', VDate t)]"

definition synced_at :: "nat \<Rightarrow> (target \<times> event) list" where
  "synced_at t =
     [(ToRoom (newObjectId 16),
       Synced (Some (VId (newObjectId 16))) (Some (VDate t)) ''Entry saved successfully.'')]"

definition room_of_ann :: gateway where
  "room_of_ann = \<lparr>sockets = [(''sockA'', ann)], rooms = [(newObjectId 16, ''sockA'')]\<rparr>"

section \<open>Tag sanitation\<close>

text \<open>What \<^const>\<open>trim\<close> leaves: the string without a white-space prefix and suffix, and
  a result that neither starts nor ends with white space.\<close>

lemma trim_decompose:
  "\<exists>ws1 ws2. list_all isWhiteSpace ws1 \<and> list_all isWhiteSpace ws2 \<and> s = ws1 @ trim s @ ws2"
proof -
  let ?a = "takeWhile isWhiteSpace s"
  let ?r = "dropWhile isWhiteSpace s"
  let ?b = "rev (takeWhile isWhiteSpace (rev ?r))"
  have "rev ?r = takeWhile isWhiteSpace (rev ?r) @ dropWhile isWhiteSpace (rev ?r)" by simp
  then have "?r = rev (dropWhile isWhiteSpace (rev ?r)) @ ?b"
    by (metis rev_append rev_rev_ident)
  then have "s = ?a @ trim s @ ?b"
    unfolding trim_def by (metis takeWhile_dropWhile_id)
  moreover have "list_all isWhiteSpace ?a"
    by (simp add: list_all_iff) (meson set_takeWhileD)
  moreover have "list_all isWhiteSpace ?b"
    by (simp add: list_all_iff) (meson set_takeWhileD)
  ultimately show ?thesis by blast
qed

lemma trim_ends:
  assumes ne: "trim s \<noteq> []"
  shows "\<not> isWhiteSpace (hd (trim s)) \<and> \<not> isWhiteSpace (last (trim s))"
proof -
  let ?r = "dropWhile isWhiteSpace s"
  let ?q = "dropWhile isWhiteSpace (rev ?r)"
  have q: "?q \<noteq> []" using ne by (simp add: trim_def)
  then have hq: "\<not> isWhiteSpace (hd ?q)" by (metis hd_dropWhile)
  have "last (trim s) = hd ?q" using q by (simp add: trim_def last_rev)
  then have l: "\<not> isWhiteSpace (last (trim s))" using hq by simp
  have rne: "?r \<noteq> []" using q by (metis dropWhile.simps(1) rev_is_Nil_conv)
  then have hr: "\<not> isWhiteSpace (hd ?r)" by (metis hd_dropWhile)
  obtain ws where "rev ?r = ws @ ?q" by (metis takeWhile_dropWhile_id)
  then have "?r = rev ?q @ rev ws" by (metis rev_append rev_rev_ident)
  then have "hd ?r = hd (rev ?q)" using q by (metis hd_append2 rev_is_Nil_conv)
  then have "hd (trim s) = hd ?r" by (simp add: trim_def)
  then show ?thesis using hr l by simp
qed

lemma map_of_stamp_other:
  "k \<noteq> ''createdAt'' \<Longrightarrow> k \<noteq> ''updatedAt'' \<Longrightarrow>
   map_of (stamp S now doc) k = map_of (rawDoc doc) k"
  by (simp add: stamp_def update_conv')

lemma save_tags:
  assumes "save entrySchema now doc coll = Inr (d, coll')"
    and "''tags'' \<in> set (modifiedPaths doc)"
    and "map_of (rawDoc doc) ''tags'' = Some (VArr tags)"
  shows "map_of d ''tags'' = Some (VArr (sanitizeTags tags))"
  using assms
  by (auto simp: save_def entrySchema_def entrySchema_pre_save_def map_of_stamp_other
      update_conv' split: if_splits sum.splits)

lemma update_first_mem:
  "list_ex P xs \<Longrightarrow> (\<And>y. f y = d) \<Longrightarrow> d \<in> set (update_first P f xs)"
  by (induction xs) auto

lemma save_stored:
  assumes "save S now doc coll = Inr (d, coll')" and "isNew doc \<or> modifiedPaths doc \<noteq> []"
  shows "d \<in> set coll'"
  using assms by (auto simp: save_def update_first_mem split: if_splits sum.splits)

text \<open>
  C8. Whenever an Entry whose \<open>tags\<close> were set to the list \<open>tags\<close> is saved, the stored
  document carries each tag trimmed, without the tags that are empty after trimming and
  in the order submitted; no stored tag starts or ends with white space.
\<close>

theorem entry_tags_sanitized:
  assumes "save entrySchema now doc coll = Inr (d, coll')"
    and "''tags'' \<in> set (modifiedPaths doc)"
    and "map_of (rawDoc doc) ''tags'' = Some (VArr tags)"
  shows "d \<in> set coll' \<and>
         map_of d ''tags'' = Some (VArr (filter (\<lambda>t. t \<noteq> []) (map trim tags))) \<and>
         list_all (\<lambda>t. \<not> isWhiteSpace (hd t) \<and> \<not> isWhiteSpace (last t))
           (filter (\<lambda>t. t \<noteq> []) (map trim tags))"
proof -
  have "modifiedPaths doc \<noteq> []" using assms(2) by auto
  then have 1: "d \<in> set coll'" using save_stored[OF assms(1)] by simp
  have 2: "map_of d ''tags'' = Some (VArr (filter (\<lambda>t. t \<noteq> []) (map trim tags)))"
    using save_tags[OF assms] by (simp add: sanitizeTags_def)
  have 3: "list_all (\<lambda>t. \<not> isWhiteSpace (hd t) \<and> \<not> isWhiteSpace (last t))
           (filter (\<lambda>t. t \<noteq> []) (map trim tags))"
    by (auto simp: list_all_iff dest: trim_ends)
  show ?thesis using 1 2 3 by blast
qed

text \<open>The example of the specification: the tags \<open>[" work ", "", "Life "]\<close> are stored as
  \<open>["work", "Life"]\<close>.\<close>

theorem entry_tags_sanitized_witness:
  "save entrySchema 100 (new_doc entrySchema (newObjectId 16) tagged_given) [] =
     Inr (tagged_entry, [tagged_entry]) \<and>
   ''tags'' \<in> set (modifiedPaths (new_doc entrySchema (newObjectId 16) tagged_given)) \<and>
   map_of (rawDoc (new_doc entrySchema (newObjectId 16) tagged_given)) ''tags'' =
     Some (VArr ['' work '', '''', ''Life '']) \<and>
   map_of tagged_entry ''tags'' = Some (VArr [''work'', ''Life''])"
proof -
  have h1: "save entrySchema 100 (new_doc entrySchema (newObjectId 16) tagged_given) [] =
     Inr (tagged_entry, [tagged_entry])" by code_simp
  have h2: "''tags'' \<in> set (modifiedPaths (new_doc entrySchema (newObjectId 16) tagged_given))"
    by code_simp
  have h3: "map_of (rawDoc (new_doc entrySchema (newObjectId 16) tagged_given)) ''tags'' =
     Some (VArr ['' work '', '''', ''Life ''])" by code_simp
  have "map_of tagged_entry ''tags'' =
     Some (VArr (filter (\<lambda>t. t \<noteq> []) (map trim ['' work '', '''', ''Life ''])))"
    using entry_tags_sanitized[OF h1 h2 h3] by blast
  moreover have "filter (\<lambda>t. t \<noteq> []) (map trim ['' work '', '''', ''Life '']) = [''work'', ''Life'']"
    by code_simp
  ultimately show ?thesis using h1 h2 h3 by simp
qed

section \<open>The save event\<close>

lemma path_of_entry_id [simp]: "path_of entrySchema ''_id'' = Some (plain TObjectId)"
  by (simp add: path_of_def)

lemma path_of_entry_user:
  "path_of entrySchema ''user'' = Some ((plain TObjectId)\<lparr>required := True\<rparr>)"
  by (simp add: path_of_def entrySchema_def)

lemma get_prop_entry:
  "k \<in> {''_id'', ''user'', ''title'', ''content'', ''mood'', ''createdAt'', ''updatedAt''} \<Longrightarrow>
   get_prop entrySchema d k = map_of d k"
  by (auto simp: get_prop_def path_of_def entrySchema_def plain_def split: option.splits)

lemma cast_filter_id_user:
  "cast_filter entrySchema [(''_id'', VStr eid), (''user'', VStr uid)] =
     (case castObjectId eid of None \<Rightarrow> None
      | Some i \<Rightarrow> (case castObjectId uid of None \<Rightarrow> None
                   | Some u \<Rightarrow> Some [(''_id'', VId i), (''user'', VId u)]))"
  by (simp add: path_of_entry_user plain_def split: option.splits)

lemma matches_id_user:
  "castObjectId eid = Some i \<Longrightarrow> castObjectId uid = Some u \<Longrightarrow>
   matches [(''_id'', VId i), (''user'', VId u)] d = (names_doc eid d \<and> owned_by uid d)"
  by (simp add: matches_def names_doc_def owned_by_def)

lemma find_None_iff_all: "(find P xs = None) = list_all (\<lambda>x. \<not> P x) xs"
  by (induction xs) auto

lemma find_Some_D: "find P xs = Some x \<Longrightarrow> P x \<and> x \<in> set xs"
  by (induction xs) (auto split: if_splits)

lemma update_first_find: "find P xs = Some x \<Longrightarrow> f x \<in> set (update_first P f xs)"
  by (induction xs) (auto split: if_splits)

lemma cast_update_content_title:
  "cast_update entrySchema [(''content'', VStr c), (''title'', VStr t)] =
     Some [(''content'', VStr c), (''title'', VStr (trim t))]"
  by (simp add: path_of_def entrySchema_def plain_def)

lemma map_of_apply_update_entry:
  "map_of (apply_update entrySchema now [(''content'', VStr c), (''title'', VStr t)] d) =
     (map_of d)(''title'' \<mapsto> VStr t, ''content'' \<mapsto> VStr c, ''updatedAt'' \<mapsto> VDate now)"
  by (simp add: apply_update_def entrySchema_def update_conv')

lemma recipients_room:
  "set (recipients g (ToRoom room)) = {x \<in> fst ` set (sockets g). in_room g room x}"
  by auto

lemma connected_socket: "map_of (sockets g) s = Some uid \<Longrightarrow> s \<in> fst ` set (sockets g)"
  by (metis map_of_SomeD fst_conv image_eqI)

lemma on_save_denied:
  assumes "eid \<noteq> []"
    and "list_all (\<lambda>d. \<not> (names_doc eid d \<and> owned_by uid d)) (entries st)"
  shows "\<exists>msg. on_save now st s uid (Some eid) content title =
           ([(ToSocket s, SaveError eid msg)], st)"
proof (cases "castObjectId eid")
  case None
  then show ?thesis using assms(1)
    by (simp add: on_save_def findOneAndUpdate_def cast_filter_id_user
        del: cast_filter.simps cast_update.simps)
next
  case (Some i)
  show ?thesis
  proof (cases "castObjectId uid")
    case None
    then show ?thesis using assms(1) Some
      by (simp add: on_save_def findOneAndUpdate_def cast_filter_id_user
          del: cast_filter.simps cast_update.simps)
  next
    case (Some u)
    have "find (matches [(''_id'', VId i), (''user'', VId u)]) (entries st) = None"
      using assms(2) \<open>castObjectId eid = Some i\<close> Some
      by (simp add: find_None_iff_all matches_id_user)
    then show ?thesis using assms(1) \<open>castObjectId eid = Some i\<close> Some
      by (simp add: on_save_def findOneAndUpdate_def cast_filter_id_user
          cast_update_content_title del: cast_filter.simps cast_update.simps)
  qed
qed

lemma on_save_synced:
  assumes "eid \<noteq> []"
    and "find (\<lambda>d. names_doc eid d \<and> owned_by uid d) (entries st) = Some d"
  shows "on_save now st s uid (Some eid) content title =
     ([(ToRoom eid, Synced (map_of d ''_id'') (Some (VDate now)) ''Entry saved successfully.'')],
      st\<lparr>entries := update_first (\<lambda>d. names_doc eid d \<and> owned_by uid d)
          (apply_update entrySchema now
             [(''content'', VStr content), (''title'', VStr (trim title))])
          (entries st)\<rparr>)"
proof -
  from find_Some_D[OF assms(2)] have nd: "names_doc eid d" "owned_by uid d" by auto
  then obtain i u where c: "castObjectId eid = Some i" "castObjectId uid = Some u"
    by (auto simp: names_doc_def owned_by_def split: option.splits)
  have m: "matches [(''_id'', VId i), (''user'', VId u)] =
           (\<lambda>d. names_doc eid d \<and> owned_by uid d)"
    using matches_id_user[OF c] by auto
  show ?thesis using assms c
    by (simp add: on_save_def findOneAndUpdate_def cast_filter_id_user
        cast_update_content_title m get_prop_entry map_of_apply_update_entry
        del: cast_filter.simps cast_update.simps)
qed

text \<open>
  C3, as amended. On an authenticated connection (the socket \<open>s\<close> is bound to the user
  \<open>uid\<close>), take a \<open>save\<close> event that names an entry id \<open>eid\<close> such that no entry of
  that id is owned by \<open>uid\<close> (there is no such entry, or it is another user's). When
  \<open>eid\<close> is not empty, exactly one event is emitted, a \<open>saveError\<close> for \<open>eid\<close>, to the
  sender's socket and to no other; no \<open>synced\<close> is emitted. When \<open>eid\<close> is empty, or the
  event carries no entry id, the guard of the handler returns and nothing is emitted.
  In every case the database and the gateway are unchanged.
\<close>

theorem save_denied:
  assumes "map_of (sockets g) s = Some uid"
    and "list_all (\<lambda>d. \<not> (names_doc eid d \<and> owned_by uid d)) (entries st)"
  shows "(if eid = []
          then on_message now (g, st) s (Save (Some eid) content title) = ([], g, st)
          else \<exists>msg. on_message now (g, st) s (Save (Some eid) content title) =
                 ([(ToSocket s, SaveError eid msg)], g, st)) \<and>
         on_message now (g, st) s (Save None content title) = ([], g, st) \<and>
         set (recipients g (ToSocket s)) = {s}"
proof -
  have e: "on_message now (g, st) s (Save (Some []) content title) = ([], g, st)"
    using assms(1) by (simp add: on_message_def on_save_def)
  have n: "on_message now (g, st) s (Save None content title) = ([], g, st)"
    using assms(1) by (simp add: on_message_def on_save_def)
  have d: "\<exists>msg. on_message now (g, st) s (Save (Some eid) content title) =
                 ([(ToSocket s, SaveError eid msg)], g, st)" if ne: "eid \<noteq> []"
  proof -
    from on_save_denied[OF ne assms(2)] obtain msg where
      "on_save now st s uid (Some eid) content title = ([(ToSocket s, SaveError eid msg)], st)"
      by blast
    then have "on_message now (g, st) s (Save (Some eid) content title) =
           ([(ToSocket s, SaveError eid msg)], g, st)"
      using assms(1) by (simp add: on_message_def)
    then show ?thesis by blast
  qed
  have r: "set (recipients g (ToSocket s)) = {s}"
    using connected_socket[OF assms(1)] by auto
  show ?thesis using e n d r by auto
qed

text \<open>Bob's socket saves Ann's entry.\<close>

theorem save_denied_witness:
  "map_of (sockets gateway1) ''sockB'' = Some bob \<and>
   list_all (\<lambda>d. \<not> (names_doc (newObjectId 16) d \<and> owned_by bob d)) (entries store1) \<and>
   (\<exists>msg. on_message 101 (gateway1, store1) ''sockB'' (Save (Some (newObjectId 16)) ''v1'' ''Draft'') =
           ([(ToSocket ''sockB'', SaveError (newObjectId 16) msg)], gateway1, store1)) \<and>
   on_message 101 (gateway1, store1) ''sockB'' (Save None ''v1'' ''Draft'') =
     ([], gateway1, store1) \<and>
   set (recipients gateway1 (ToSocket ''sockB'')) = {''sockB''}"
proof -
  have h1: "map_of (sockets gateway1) ''sockB'' = Some bob" by code_simp
  have h2: "newObjectId 16 \<noteq> []" by code_simp
  have h3: "list_all (\<lambda>d. \<not> (names_doc (newObjectId 16) d \<and> owned_by bob d)) (entries store1)"
    by code_simp
  show ?thesis
    using save_denied[OF h1 h3, of 101 "''v1''" "''Draft''"] h1 h2 h3 by simp
qed

text \<open>
  The claim as stated fails for the empty entry id: no entry has it, Bob's socket is an
  authenticated connection, and the handler emits nothing, not a \<open>saveError\<close>.
\<close>

theorem save_with_empty_id_is_silent:
  "map_of (sockets gateway1) ''sockB'' = Some bob \<and>
   castObjectId [] = None \<and>
   on_message 101 (gateway1, store1) ''sockB'' (Save (Some []) ''v1'' ''Draft'') =
     ([], gateway1, store1)"
proof -
  have 1: "map_of (sockets gateway1) ''sockB'' = Some bob" by code_simp
  have 2: "castObjectId [] = None" by (simp add: castObjectId_def)
  have 3: "on_message 101 (gateway1, store1) ''sockB'' (Save (Some []) ''v1'' ''Draft'') =
     ([], gateway1, store1)" by code_simp
  show ?thesis using 1 2 3 by blast
qed

text \<open>
  C5. On an authenticated connection, a \<open>save\<close> event that names an entry owned by the
  bound user updates that entry and emits exactly one event: \<open>synced\<close>, carrying the
  entry's \<open>_id\<close> and its new \<open>updatedAt\<close> (the time of the update), to the room named by
  the event's entry id. The room's recipients are all the connected sockets in it; the
  sender is not left out.
\<close>

theorem save_synced:
  assumes "map_of (sockets g) s = Some uid"
    and "eid \<noteq> []"
    and "find (\<lambda>d. names_doc eid d \<and> owned_by uid d) (entries st) = Some d"
  shows "\<exists>d' es.
           on_message now (g, st) s (Save (Some eid) content title) =
             ([(ToRoom eid,
                Synced (map_of d ''_id'') (Some (VDate now)) ''Entry saved successfully.'')],
              g, st\<lparr>entries := es\<rparr>) \<and>
           d' \<in> set es \<and>
           map_of d' ''_id'' = map_of d ''_id'' \<and>
           map_of d' ''content'' = Some (VStr content) \<and>
           map_of d' ''updatedAt'' = Some (VDate now) \<and>
           set (recipients g (ToRoom eid)) = {x \<in> fst ` set (sockets g). in_room g eid x} \<and>
           (in_room g eid s \<longrightarrow> s \<in> set (recipients g (ToRoom eid)))"
proof -
  let ?u = "apply_update entrySchema now
              [(''content'', VStr content), (''title'', VStr (trim title))]"
  let ?es = "update_first (\<lambda>d. names_doc eid d \<and> owned_by uid d) ?u (entries st)"
  have 1: "on_message now (g, st) s (Save (Some eid) content title) =
             ([(ToRoom eid,
                Synced (map_of d ''_id'') (Some (VDate now)) ''Entry saved successfully.'')],
              g, st\<lparr>entries := ?es\<rparr>)"
    using on_save_synced[OF assms(2,3)] assms(1) by (simp add: on_message_def)
  have 2: "?u d \<in> set ?es" using update_first_find[OF assms(3)] by simp
  have 3: "map_of (?u d) ''_id'' = map_of d ''_id''"
    "map_of (?u d) ''content'' = Some (VStr content)"
    "map_of (?u d) ''updatedAt'' = Some (VDate now)"
    by (simp_all add: map_of_apply_update_entry)
  have 4: "set (recipients g (ToRoom eid)) = {x \<in> fst ` set (sockets g). in_room g eid x}"
    by (rule recipients_room)
  have 5: "in_room g eid s \<longrightarrow> s \<in> set (recipients g (ToRoom eid))"
    using connected_socket[OF assms(1)] 4 by simp
  show ?thesis using 1 2 3 4 5 by blast
qed

text \<open>Ann's socket saves her own entry; both sockets of the room get \<open>synced\<close>.\<close>

theorem save_synced_witness:
  "map_of (sockets gateway1) ''sockA'' = Some ann \<and>
   newObjectId 16 \<noteq> [] \<and>
   find (\<lambda>d. names_doc (newObjectId 16) d \<and> owned_by ann d) (entries store1) = Some draft_entry \<and>
   (\<exists>es. on_message 101 (gateway1, store1) ''sockA'' (Save (Some (newObjectId 16)) ''v1'' ''Draft'') =
       ([(ToRoom (newObjectId 16),
          Synced (Some (VId (newObjectId 16))) (Some (VDate 101)) ''Entry saved successfully.'')],
        gateway1, store1\<lparr>entries := es\<rparr>)) \<and>
   set (recipients gateway1 (ToRoom (newObjectId 16))) = {''sockA'', ''sockB''}"
proof -
  have h1: "map_of (sockets gateway1) ''sockA'' = Some ann" by code_simp
  have h2: "newObjectId 16 \<noteq> []" by code_simp
  have h3: "find (\<lambda>d. names_doc (newObjectId 16) d \<and> owned_by ann d) (entries store1) =
            Some draft_entry" by code_simp
  have i: "map_of draft_entry ''_id'' = Some (VId (newObjectId 16))" by code_simp
  have r: "set (recipients gateway1 (ToRoom (newObjectId 16))) = {''sockA'', ''sockB''}"
    by code_simp
  show ?thesis
    using save_synced[OF h1 h2 h3, of 101 "''v1''" "''Draft''"] h1 h2 h3 r unfolding i by blast
qed

section \<open>Deleting and updating an entry\<close>

lemma findById_entry:
  "findById entrySchema coll (Some jid) =
     (case castObjectId jid of None \<Rightarrow> Inl CastError
      | Some i \<Rightarrow> Inr (find (names_doc jid) coll))"
proof (cases "castObjectId jid")
  case None
  then show ?thesis by (simp add: findById_def findOne_def plain_def)
next
  case (Some i)
  have "matches [(''_id'', VId i)] = names_doc jid"
    using Some by (auto simp: matches_def names_doc_def)
  then show ?thesis using Some by (simp add: findById_def findOne_def plain_def)
qed

lemma remove_first_find: "find P xs = Some x \<Longrightarrow> remove_first P xs = remove1 x xs"
  by (induction xs) (auto split: if_splits dest: find_Some_D)

lemma has_id_names:
  "names_doc jid journal \<Longrightarrow> has_id (map_of journal ''_id'') = names_doc jid"
  by (auto simp: has_id_def names_doc_def split: option.splits)

lemma deleteOne_found:
  assumes f: "find (names_doc jid) coll = Some journal"
  shows "deleteOne journal coll = remove1 journal coll"
proof -
  have "names_doc jid journal" using f by (simp add: find_Some_D)
  then have "has_id (map_of journal ''_id'') = names_doc jid" by (rule has_id_names)
  then show ?thesis using f by (simp add: deleteOne_def remove_first_find)
qed

text \<open>
  C9. \<open>deleteJournal\<close> never touches the versions (nor the users). It answers 200 exactly
  when the id names an entry whose \<open>user\<close> is the requesting user; then exactly that
  entry is taken out of the entries. With any other answer the database is unchanged.
\<close>

theorem delete_owner_only:
  assumes "deleteJournal st uid jid = (res, st')"
  shows "versions st' = versions st \<and> users st' = users st \<and> idCounter st' = idCounter st \<and>
         (status res = 200 \<longrightarrow>
            (\<exists>journal. find (names_doc jid) (entries st) = Some journal \<and>
               toString (map_of journal ''user'') = Inr uid \<and>
               entries st' = remove1 journal (entries st))) \<and>
         (status res \<noteq> 200 \<longrightarrow> st' = st) \<and>
         (\<forall>journal. find (names_doc jid) (entries st) = Some journal \<and>
               toString (map_of journal ''user'') = Inr uid \<longrightarrow> status res = 200)"
proof -
  have n: "castObjectId jid = None \<Longrightarrow> find (names_doc jid) (entries st) = None"
    by (simp add: find_None_iff_all names_doc_def list_all_iff)
  show ?thesis using assms n
    by (auto simp: deleteJournal_def asyncHandler_def errorHandler_def findById_entry
        get_prop_entry deleteOne_found
        split: option.splits sum.splits if_splits)
qed

text \<open>Ann deletes her entry; its version and Bob's documents stay.\<close>

theorem delete_owner_only_witness:
  "deleteJournal store2 ann (newObjectId 16) =
     (\<lparr>status = 200, json = JMessage ''Journal entry successfully deleted.''\<rparr>,
      store2\<lparr>entries := [bobs_entry]\<rparr>) \<and>
   versions (store2\<lparr>entries := [bobs_entry]\<rparr>) = [draft_version, bobs_version] \<and>
   find (names_doc (newObjectId 16)) (entries store2) = Some draft_entry \<and>
   toString (map_of draft_entry ''user'') = Inr ann \<and>
   entries (store2\<lparr>entries := [bobs_entry]\<rparr>) = remove1 draft_entry (entries store2)"
proof -
  have h: "deleteJournal store2 ann (newObjectId 16) =
     (\<lparr>status = 200, json = JMessage ''Journal entry successfully deleted.''\<rparr>,
      store2\<lparr>entries := [bobs_entry]\<rparr>)" by code_simp
  have v: "versions store2 = [draft_version, bobs_version]" by (simp add: store2_def)
  have f: "find (names_doc (newObjectId 16)) (entries store2) = Some draft_entry" by code_simp
  show ?thesis using delete_owner_only[OF h] h v f by auto
qed

subsection \<open>The update handler\<close>

lemma set_path_other:
  "k' \<noteq> k \<Longrightarrow> map_of (rawDoc (set_path S doc k v)) k' = map_of (rawDoc doc) k'"
  by (auto simp: set_path_def update_conv' split: option.splits)

lemma set_path_isNew: "isNew (set_path S doc k v) = isNew doc"
  by (auto simp: set_path_def split: option.splits)

lemma set_path_modified:
  "set (modifiedPaths (set_path S doc k v)) \<subseteq> insert k (set (modifiedPaths doc))"
  by (auto simp: set_path_def split: option.splits if_splits)

lemma set_path_same:
  assumes "path_of S k = Some p"
    and "case map_of (rawDoc doc) k of None \<Rightarrow> True | Some v \<Rightarrow> castv p v = Some v"
  shows "set_path S doc k (map_of (rawDoc doc) k) = doc"
  using assms by (auto simp: set_path_def split: option.splits)

lemma conforms_entry_title:
  "conforms entrySchema d \<Longrightarrow>
   (case map_of d ''title'' of None \<Rightarrow> True
    | Some v \<Rightarrow> castv ((plain TString)\<lparr>required := True, trim_set := True,
                                      maxlength := Some 100\<rparr>) v = Some v)"
  by (simp add: conforms_def entrySchema_def)

lemma conforms_entry_content:
  "conforms entrySchema d \<Longrightarrow>
   (case map_of d ''content'' of None \<Rightarrow> True
    | Some v \<Rightarrow> castv ((plain TString)\<lparr>required := True\<rparr>) v = Some v)"
  by (simp add: conforms_def entrySchema_def)

lemma path_of_entry_title:
  "path_of entrySchema ''title'' =
     Some ((plain TString)\<lparr>required := True, trim_set := True, maxlength := Some 100\<rparr>)"
  by (simp add: path_of_def entrySchema_def)

lemma path_of_entry_content:
  "path_of entrySchema ''content'' = Some ((plain TString)\<lparr>required := True\<rparr>)"
  by (simp add: path_of_def entrySchema_def)

lemma stamp_loaded:
  "\<not> isNew doc \<Longrightarrow> k \<noteq> ''updatedAt'' \<Longrightarrow> map_of (stamp S now doc) k = map_of (rawDoc doc) k"
  by (simp add: stamp_def update_conv')

lemma pre_save_entry_untouched:
  "''tags'' \<notin> set ms \<Longrightarrow> pre_save entrySchema (\<lambda>k. k \<in> set ms) d = Inr d"
  by (simp add: entrySchema_def entrySchema_pre_save_def)

lemma list_all2_update_first:
  assumes "find P xs = Some j" and "R j d" and "\<And>x. R x x"
  shows "list_all2 R xs (update_first P (\<lambda>_. d) xs)"
  using assms by (induction xs) (auto split: if_splits simp: list_all2_same)

lemma save_loaded:
  assumes "save entrySchema now doc coll = Inr (d, coll')"
    and "\<not> isNew doc" and "''tags'' \<notin> set (modifiedPaths doc)"
  shows "d = stamp entrySchema now doc \<and>
         (coll' = coll \<or> coll' = update_first (has_id (map_of d ''_id'')) (\<lambda>_. d) coll)"
  using assms
  by (auto simp: save_def pre_save_entry_untouched split: if_splits sum.splits)

text \<open>
  A stored entry loaded through the Entry model: the only default of the schema is
  \<open>tags\<close>, so the loaded document is the stored one, with \<open>tags: []\<close> added when the
  stored one has no tags.
\<close>

lemma missing_defaults_entry:
  "missing_defaults (paths entrySchema) d =
     (if map_of d ''tags'' = None then [(''tags'', VArr [])] else [])"
  by (simp add: entrySchema_def plain_def)

lemma hydrate_entry_raw:
  "map_of (rawDoc (hydrate entrySchema d)) k =
     (if k = ''tags'' \<and> map_of d ''tags'' = None then Some (VArr []) else map_of d k)"
  by (auto simp: hydrate_def missing_defaults_entry map_add_def split: option.splits)

lemma hydrate_flags:
  "modifiedPaths (hydrate S d) = []" "\<not> isNew (hydrate S d)" "invalid (hydrate S d) = []"
  by (simp_all add: hydrate_def)

text \<open>
  C10, as amended. \<open>updateJournal\<close> changes nothing but entries: users, versions and the
  id counter stay. Every entry keeps all its fields except possibly \<open>title\<close>,
  \<open>content\<close>, \<open>updatedAt\<close> and \<open>tags\<close>; its tags stay, or it was stored without tags and
  gets the schema's default, the empty list; it keeps its title when the body's title is
  missing or empty, and its content when the body's content is missing or empty. The
  entries are assumed to conform to the Entry schema, as every entry written through the
  model does.
\<close>

theorem update_frame:
  assumes run: "updateJournal now st uid jid title content = (res, st')"
    and conf: "list_all (conforms entrySchema) (entries st)"
  shows "users st' = users st \<and> versions st' = versions st \<and> idCounter st' = idCounter st \<and>
         list_all2 (\<lambda>e e'.
             (\<forall>k. k \<notin> {''title'', ''content'', ''updatedAt'', ''tags''} \<longrightarrow>
                  map_of e' k = map_of e k) \<and>
             (map_of e' ''tags'' = map_of e ''tags'' \<or>
              map_of e ''tags'' = None \<and> map_of e' ''tags'' = Some (VArr [])) \<and>
             (\<not> truthy title \<longrightarrow> map_of e' ''title'' = map_of e ''title'') \<and>
             (\<not> truthy content \<longrightarrow> map_of e' ''content'' = map_of e ''content''))
           (entries st) (entries st')"
proof -
  let ?R = "\<lambda>e e'.
             (\<forall>k. k \<notin> {''title'', ''content'', ''updatedAt'', ''tags''} \<longrightarrow>
                  map_of e' k = map_of e k) \<and>
             (map_of e' ''tags'' = map_of e ''tags'' \<or>
              map_of e ''tags'' = None \<and> map_of e' ''tags'' = Some (VArr [])) \<and>
             (\<not> truthy title \<longrightarrow> map_of e' ''title'' = map_of e ''title'') \<and>
             (\<not> truthy content \<longrightarrow> map_of e' ''content'' = map_of e ''content'')"
  let ?T = "\<lambda>st'. users st' = users st \<and> versions st' = versions st \<and> idCounter st' = idCounter st \<and>
         list_all2 ?R (entries st) (entries st')"
  have same: "?T st"
    by (simp add: list_all2_same)
  have "?T st'"
  proof (cases "findById entrySchema (entries st) (Some jid)")
    case (Inl e)
    then have "st' = st" using run by (simp add: updateJournal_def asyncHandler_def)
    then show ?thesis using same by simp
  next
    case (Inr found)
    show ?thesis
    proof (cases found)
      case None
      then have "st' = st" using run Inr by (simp add: updateJournal_def asyncHandler_def)
      then show ?thesis using same by simp
    next
      case (Some journal)
      have fnd: "find (names_doc jid) (entries st) = Some journal"
        using Inr Some by (simp add: findById_entry split: option.splits)
      then have jn: "names_doc jid journal" and jmem: "journal \<in> set (entries st)"
        by (simp_all add: find_Some_D)
      have jconf: "conforms entrySchema journal"
        using conf jmem by (simp add: list_all_iff)
      define j0 where "j0 = hydrate entrySchema journal"
      define j1 where "j1 = set_path entrySchema j0 ''title''
                             (or_else title (get_prop entrySchema journal ''title''))"
      define j2 where "j2 = set_path entrySchema j1 ''content''
                             (or_else content (get_prop entrySchema journal ''content''))"
      have raw0: "k \<noteq> ''tags'' \<Longrightarrow> map_of (rawDoc j0) k = map_of journal k" for k
        by (simp add: j0_def hydrate_entry_raw)
      have tags0: "map_of (rawDoc j0) ''tags'' = map_of journal ''tags'' \<or>
                   map_of journal ''tags'' = None \<and> map_of (rawDoc j0) ''tags'' = Some (VArr [])"
        by (simp add: j0_def hydrate_entry_raw)
      have t_same: "\<not> truthy title \<Longrightarrow> j1 = j0"
        unfolding j1_def using set_path_same[OF path_of_entry_title, of j0]
          conforms_entry_title[OF jconf]
        by (simp add: or_else_def get_prop_entry raw0)
      have c_same: "\<not> truthy content \<Longrightarrow> j2 = j1"
      proof -
        assume nc: "\<not> truthy content"
        have "map_of (rawDoc j1) ''content'' = map_of journal ''content''"
          unfolding j1_def by (simp add: set_path_other raw0)
        then show "j2 = j1"
          unfolding j2_def using set_path_same[OF path_of_entry_content, of j1]
            conforms_entry_content[OF jconf] nc
          by (simp add: or_else_def get_prop_entry)
      qed
      have notnew: "\<not> isNew j2"
        by (simp add: j2_def j1_def j0_def set_path_isNew hydrate_flags)
      have m1: "set (modifiedPaths j1) \<subseteq> {''title''}"
        unfolding j1_def
        using set_path_modified[of entrySchema j0 "''title''"]
        by (simp add: j0_def hydrate_flags)
      have m2: "set (modifiedPaths j2) \<subseteq> insert ''content'' (set (modifiedPaths j1))"
        unfolding j2_def by (rule set_path_modified)
      have notags: "''tags'' \<notin> set (modifiedPaths j2)"
        using m1 m2 by auto
      have raw_other: "k \<noteq> ''title'' \<Longrightarrow> k \<noteq> ''content'' \<Longrightarrow>
                       map_of (rawDoc j2) k = map_of (rawDoc j0) k" for k
        by (simp add: j2_def j1_def set_path_other)
      have raw_title: "\<not> truthy title \<Longrightarrow> map_of (rawDoc j2) ''title'' = map_of journal ''title''"
        using t_same by (simp add: j2_def set_path_other raw0)
      have raw_content:
        "\<not> truthy content \<Longrightarrow> map_of (rawDoc j2) ''content'' = map_of journal ''content''"
        using c_same by (simp add: j1_def set_path_other raw0)
      show ?thesis
      proof (cases "toString (get_prop entrySchema journal ''user'')")
        case (Inl e)
        then have "st' = st" using run Inr Some
          by (simp add: updateJournal_def asyncHandler_def)
        then show ?thesis using same by simp
      next
        case (Inr owner)
        show ?thesis
        proof (cases "owner \<noteq> uid")
          case True
          then have "st' = st" using run \<open>findById entrySchema (entries st) (Some jid) = Inr found\<close>
              Some Inr
            by (simp add: updateJournal_def asyncHandler_def)
          then show ?thesis using same by simp
        next
          case False
          show ?thesis
          proof (cases "save entrySchema now j2 (entries st)")
            case (Inl e)
            then have "st' = st"
              using run \<open>findById entrySchema (entries st) (Some jid) = Inr found\<close>
                Some Inr False
              by (simp add: updateJournal_def asyncHandler_def j0_def[symmetric]
                  j1_def[symmetric] j2_def[symmetric] Let_def)
            then show ?thesis using same by simp
          next
            case sv: (Inr r)
            obtain d es where r: "r = (d, es)" by (cases r)
            have st': "st' = st\<lparr>entries := es\<rparr>"
              using run \<open>findById entrySchema (entries st) (Some jid) = Inr found\<close>
                Some Inr False sv r
              by (simp add: updateJournal_def asyncHandler_def j0_def[symmetric]
                  j1_def[symmetric] j2_def[symmetric] Let_def)
            from save_loaded[OF sv[unfolded r] notnew notags]
            have d: "d = stamp entrySchema now j2"
              and es: "es = entries st \<or> es = update_first (has_id (map_of d ''_id'')) (\<lambda>_. d) (entries st)"
              by auto
            have did: "map_of d ''_id'' = map_of journal ''_id''"
              by (simp add: d stamp_loaded[OF notnew] raw_other raw0)
            have Rjd: "?R journal d"
              using raw_title raw_content tags0
              by (auto simp: d stamp_loaded[OF notnew] raw_other raw0)
            have "list_all2 ?R (entries st) es"
            proof (cases "es = entries st")
              case True
              then show ?thesis by (simp add: list_all2_same)
            next
              case False
              then have "es = update_first (names_doc jid) (\<lambda>_. d) (entries st)"
                using es did has_id_names[OF jn] by simp
              then show ?thesis
                using list_all2_update_first[of "names_doc jid" "entries st" journal ?R d, OF fnd Rjd]
                by simp
            qed
            then show ?thesis using st' by simp
          qed
        qed
      qed
    qed
  qed
  then show ?thesis .
qed

text \<open>An update, with an empty title and a new content, of an entry stored without tags:
  the title stays, the content and \<open>updatedAt\<close> change, and the default tags are written.\<close>

theorem update_frame_witness:
  "updateJournal 200 bare_store ann (newObjectId 16) (Some '''') (Some ''new text'') =
     (\<lparr>status = 200, json = JDoc edited_entry\<rparr>, bare_store\<lparr>entries := [edited_entry]\<rparr>) \<and>
   list_all (conforms entrySchema) (entries bare_store) \<and>
   \<not> truthy (Some '''') \<and>
   map_of edited_entry ''title'' = map_of bare_entry ''title'' \<and>
   map_of bare_entry ''tags'' = None \<and>
   map_of edited_entry ''tags'' = Some (VArr []) \<and>
   list_all2 (\<lambda>e e'.
       (\<forall>k. k \<notin> {''title'', ''content'', ''updatedAt'', ''tags''} \<longrightarrow>
            map_of e' k = map_of e k) \<and>
       (map_of e' ''tags'' = map_of e ''tags'' \<or>
        map_of e ''tags'' = None \<and> map_of e' ''tags'' = Some (VArr [])) \<and>
       (\<not> truthy (Some '''') \<longrightarrow> map_of e' ''title'' = map_of e ''title'') \<and>
       (\<not> truthy (Some ''new text'') \<longrightarrow> map_of e' ''content'' = map_of e ''content''))
     [bare_entry] [edited_entry]"
proof -
  have h1: "updateJournal 200 bare_store ann (newObjectId 16) (Some '''') (Some ''new text'') =
     (\<lparr>status = 200, json = JDoc edited_entry\<rparr>, bare_store\<lparr>entries := [edited_entry]\<rparr>)"
    by code_simp
  have h2: "list_all (conforms entrySchema) (entries bare_store)" by code_simp
  have e: "entries bare_store = [bare_entry]" by (simp add: bare_store_def)
  have t: "\<not> truthy (Some '''')" by (simp add: truthy_def)
  have g: "map_of bare_entry ''tags'' = None" "map_of edited_entry ''tags'' = Some (VArr [])"
    by (simp_all add: bare_entry_def edited_entry_def)
  from update_frame[OF h1 h2] have l: "list_all2 (\<lambda>e e'.
       (\<forall>k. k \<notin> {''title'', ''content'', ''updatedAt'', ''tags''} \<longrightarrow>
            map_of e' k = map_of e k) \<and>
       (map_of e' ''tags'' = map_of e ''tags'' \<or>
        map_of e ''tags'' = None \<and> map_of e' ''tags'' = Some (VArr [])) \<and>
       (\<not> truthy (Some '''') \<longrightarrow> map_of e' ''title'' = map_of e ''title'') \<and>
       (\<not> truthy (Some ''new text'') \<longrightarrow> map_of e' ''content'' = map_of e ''content''))
     [bare_entry] [edited_entry]"
    by (simp add: e)
  then have "map_of edited_entry ''title'' = map_of bare_entry ''title''"
    using t by simp
  then show ?thesis using h1 h2 t g l by blast
qed

text \<open>
  The claim as stated fails on \<open>updatedAt\<close>: an update that changes the title also
  replaces the entry's \<open>updatedAt\<close>, a field other than title and content.
\<close>

theorem update_changes_updatedAt:
  "updateJournal 200 store1 ann (newObjectId 16) (Some ''Plan'') None =
     (\<lparr>status = 200, json = JDoc renamed_entry\<rparr>, store1\<lparr>entries := [renamed_entry]\<rparr>) \<and>
   entries store1 = [draft_entry] \<and>
   map_of draft_entry ''updatedAt'' = Some (VDate 100) \<and>
   map_of renamed_entry ''updatedAt'' = Some (VDate 200)"
proof -
  have "updateJournal 200 store1 ann (newObjectId 16) (Some ''Plan'') None =
     (\<lparr>status = 200, json = JDoc renamed_entry\<rparr>, store1\<lparr>entries := [renamed_entry]\<rparr>)"
    by code_simp
  then show ?thesis by (simp add: store1_def draft_entry_def renamed_entry_def)
qed


section \<open>The realtime scenario and the version handlers\<close>

text \<open>The concrete databases are what the handlers and \<^const>\<open>createFromEntry\<close> produce.\<close>

lemma store1_created:
  "createJournal 100 store0 ann (Some ''Draft'') (Some ''body'') =
     (\<lparr>status = 201, json = JDoc draft_entry\<rparr>, store1)"
  by code_simp

lemma draft_version_created:
  "createFromEntry False 102 (store0\<lparr>entries := [draft_entry, bobs_entry], idCounter := 18\<rparr>)
     (Some draft_entry) ''manual'' =
   Inr (draft_version,
        store0\<lparr>entries := [draft_entry, bobs_entry], versions := [draft_version],
               idCounter := 19\<rparr>)"
  by code_simp

lemma bobs_version_created:
  "createFromEntry False 103
     (store0\<lparr>entries := [draft_entry, bobs_entry], versions := [draft_version],
            idCounter := 19\<rparr>)
     (Some bobs_entry) ''manual'' = Inr (bobs_version, store2)"
  by code_simp

text \<open>The \<open>save\<close> handler, and every message on a socket, leaves the versions alone.\<close>

lemma on_save_versions:
  "versions (snd (on_save now st s uid entryId content title)) = versions st"
  by (simp add: on_save_def split: option.splits sum.splits prod.splits)

text \<open>
  With the Version model of the repository, \<open>versionToRestore.entryId\<close> is not a path of
  the schema (the reference to the entry is the path \<open>entry\<close>): it reads \<open>undefined\<close>,
  \<open>toString\<close> throws, and \<open>restoreVersion\<close> answers 200 for no request at all; it never
  changes the database.
\<close>

lemma get_prop_version_entryId: "get_prop (versionSchema sq) v ''entryId'' = None"
  by (simp add: get_prop_def path_of_def versionSchema_def)

lemma restoreVersion_never_succeeds:
  "status (fst (restoreVersion (versionSchema sq) now st uid entryId versionId)) \<noteq> 200 \<and>
   snd (restoreVersion (versionSchema sq) now st uid entryId versionId) = st"
  by (simp add: restoreVersion_def asyncHandler_def errorHandler_def get_prop_version_entryId
      split: sum.splits option.splits)

text \<open>
  C1. The claim fails on the code: Ann restores her entry to the version taken of it.
  The handler throws a TypeError at the comparison of \<open>versionToRestore.entryId\<close>; the
  answer is 500, no version is created and the entry is not restored.
\<close>

theorem restore_of_own_version_fails:
  "restoreVersion (versionSchema False) 104 store2 ann (newObjectId 16) (newObjectId 18) =
     (\<lparr>status = 500, json = JError TypeError\<rparr>, store2) \<and>
   restoreVersion (versionSchema True) 104 store2 ann (newObjectId 16) (newObjectId 18) =
     (\<lparr>status = 500, json = JError TypeError\<rparr>, store2) \<and>
   find (names_doc (newObjectId 16)) (entries store2) = Some draft_entry \<and>
   map_of draft_entry ''user'' = Some (VId ann) \<and>
   find (names_doc (newObjectId 18)) (versions store2) = Some draft_version \<and>
   map_of draft_version ''entry'' = Some (VId (newObjectId 16))"
proof -
  have 1: "restoreVersion (versionSchema False) 104 store2 ann (newObjectId 16) (newObjectId 18) =
     (\<lparr>status = 500, json = JError TypeError\<rparr>, store2)" by code_simp
  have 2: "restoreVersion (versionSchema True) 104 store2 ann (newObjectId 16) (newObjectId 18) =
     (\<lparr>status = 500, json = JError TypeError\<rparr>, store2)" by code_simp
  have 3: "find (names_doc (newObjectId 16)) (entries store2) = Some draft_entry" by code_simp
  have 4: "map_of draft_entry ''user'' = Some (VId ann)" by code_simp
  have 5: "find (names_doc (newObjectId 18)) (versions store2) = Some draft_version" by code_simp
  have 6: "map_of draft_version ''entry'' = Some (VId (newObjectId 16))" by code_simp
  show ?thesis using 1 2 3 4 5 6 by blast
qed

text \<open>
  C7. The claim fails on the code: Ann lists the versions of her entry, which has one.
  The query filters on \<open>entryId\<close>, which the Version schema does not declare. Without
  \<open>strictQuery\<close> the filter matches no stored version and the answer is the empty list;
  with \<open>strictQuery\<close> the filter is dropped and the answer holds every version of the
  database, Bob's included.
\<close>

theorem list_versions_misses_entry_field:
  "getEntryVersions (versionSchema False) store2 ann (newObjectId 16) =
     (\<lparr>status = 200, json = JDocs []\<rparr>, store2) \<and>
   getEntryVersions (versionSchema True) store2 ann (newObjectId 16) =
     (\<lparr>status = 200, json = JDocs [bobs_version, draft_version]\<rparr>, store2) \<and>
   versions store2 = [draft_version, bobs_version] \<and>
   map_of draft_version ''entry'' = Some (VId (newObjectId 16)) \<and>
   map_of bobs_version ''entry'' = Some (VId (newObjectId 17))"
proof -
  have 1: "getEntryVersions (versionSchema False) store2 ann (newObjectId 16) =
     (\<lparr>status = 200, json = JDocs []\<rparr>, store2)" by code_simp
  have 2: "getEntryVersions (versionSchema True) store2 ann (newObjectId 16) =
     (\<lparr>status = 200, json = JDocs [bobs_version, draft_version]\<rparr>, store2)" by code_simp
  have 3: "versions store2 = [draft_version, bobs_version]" by (simp add: store2_def)
  have 4: "map_of draft_version ''entry'' = Some (VId (newObjectId 16))" by code_simp
  have 5: "map_of bobs_version ''entry'' = Some (VId (newObjectId 17))" by code_simp
  show ?thesis using 1 2 3 4 5 by blast
qed

text \<open>
  C2, as amended. A \<open>save\<close> event never writes a version. In the scenario each of the
  three saves succeeds (\<open>synced\<close> is emitted to the room) and overwrites the content;
  after them the entry's content is \<open>v3\<close> and there is no version, so there is no first
  version to restore to: a restore request, whatever version id it names, is not
  answered with 200 and leaves the database as it is.
\<close>

theorem scenario_saves_make_no_version:
  "versions (snd (on_save now st s uid entryId content title)) = versions st \<and>
   scenario_save1 =
     (synced_at 101, room_of_ann,
      store0\<lparr>entries := [saved_entry ''v1'' 101], idCounter := 17\<rparr>) \<and>
   scenario_save2 =
     (synced_at 102, room_of_ann,
      store0\<lparr>entries := [saved_entry ''v2'' 102], idCounter := 17\<rparr>) \<and>
   scenario_save3 =
     (synced_at 103, room_of_ann,
      store0\<lparr>entries := [saved_entry ''v3'' 103], idCounter := 17\<rparr>) \<and>
   versions (snd (snd scenario_save3)) = [] \<and>
   map_of (saved_entry ''v3'' 103) ''content'' = Some (VStr ''v3'') \<and>
   status (fst (restoreVersion (versionSchema sq) t (snd (snd scenario_save3)) ann
                  (newObjectId 16) versionId)) \<noteq> 200 \<and>
   snd (restoreVersion (versionSchema sq) t (snd (snd scenario_save3)) ann
          (newObjectId 16) versionId) = snd (snd scenario_save3)"
proof -
  have 1: "scenario_save1 =
     (synced_at 101, room_of_ann,
      store0\<lparr>entries := [saved_entry ''v1'' 101], idCounter := 17\<rparr>)" by code_simp
  have 2: "scenario_save2 =
     (synced_at 102, room_of_ann,
      store0\<lparr>entries := [saved_entry ''v2'' 102], idCounter := 17\<rparr>)" by code_simp
  have 3: "scenario_save3 =
     (synced_at 103, room_of_ann,
      store0\<lparr>entries := [saved_entry ''v3'' 103], idCounter := 17\<rparr>)" by code_simp
  have 4: "versions (snd (snd scenario_save3)) = []" by (simp add: 3 store0_def)
  have 5: "map_of (saved_entry ''v3'' 103) ''content'' = Some (VStr ''v3'')"
    by (simp add: saved_entry_def)
  show ?thesis
    using on_save_versions 1 2 3 4 5 restoreVersion_never_succeeds by blast
qed

text \<open>
  The claim as stated fails in the scenario: the third save succeeds, and after it the
  database holds no version at all, where the claim counts three.
\<close>

theorem scenario_has_no_auto_versions:
  "fst scenario_save3 = synced_at 103 \<and> versions (snd (snd scenario_save3)) = [] \<and>
   length (versions (snd (snd scenario_save3))) \<noteq> 3"
proof -
  have 3: "scenario_save3 =
     (synced_at 103, room_of_ann,
      store0\<lparr>entries := [saved_entry ''v3'' 103], idCounter := 17\<rparr>)" by code_simp
  show ?thesis by (simp add: 3 store0_def)
qed

section \<open>Failing restores\<close>



section \<open>Authentication of socket connections\<close>

lemma findById_user:
  "findById userSchema coll (Some i) =
     (case castObjectId i of None \<Rightarrow> Inl CastError | Some x \<Rightarrow> Inr (find (names_doc i) coll))"
proof (cases "castObjectId i")
  case None
  then show ?thesis by (simp add: findById_def findOne_def path_of_def plain_def)
next
  case (Some x)
  have "matches [(''_id'', VId x)] = names_doc i"
    using Some by (auto simp: matches_def names_doc_def)
  then show ?thesis using Some by (simp add: findById_def findOne_def path_of_def plain_def)
qed

lemma findById_undefined: "findById S coll None = Inr None"
  by (simp add: findById_def)

lemma find_None_list_ex: "(find P xs = None) = (\<not> list_ex P xs)"
  by (induction xs) auto

lemma names_doc_cast: "names_doc i d \<Longrightarrow> castObjectId i \<noteq> None"
  by (auto simp: names_doc_def split: option.splits)

lemma io_use_authentic:
  "authentic jwt_verify st token \<Longrightarrow> \<exists>uid. io_use jwt_verify st token = Inr uid"
  by (auto simp: authentic_def io_use_def findById_user find_None_list_ex list_ex_iff findById_undefined
      dest: names_doc_cast split: option.splits sum.splits)

lemma io_use_not_authentic:
  "\<not> authentic jwt_verify st token \<Longrightarrow>
   io_use jwt_verify st token \<in> Inl ` {''Authentication error: No token provided.'',
      ''Authentication error: Invalid token.'', ''Authentication error: User not found.''}"
  by (auto simp: authentic_def io_use_def findById_user find_None_list_ex findById_undefined
      list_ex_iff dest: find_Some_D split: option.splits sum.splits)

lemma connect_refused:
  assumes "\<not> authentic jwt_verify st token"
  shows "\<exists>reason. reason \<noteq> [] \<and> connect jwt_verify st g s token = (Refused reason, g)"
  using io_use_not_authentic[OF assms] by (auto simp: connect_def)

lemma connect_accepted:
  assumes "authentic jwt_verify st token"
  shows "\<exists>uid. connect jwt_verify st g s token =
           (Accepted, g\<lparr>sockets := AList.update s uid (sockets g)\<rparr>)"
  using io_use_authentic[OF assms] by (auto simp: connect_def)

lemma on_message_unconnected:
  "map_of (sockets g) s = None \<Longrightarrow> on_message now (g, st) s m = ([], g, st)"
  by (simp add: on_message_def)

lemma on_save_users: "users (snd (on_save now st s uid entryId content title)) = users st"
  by (simp add: on_save_def split: option.splits sum.splits prod.splits)

lemma on_message_users: "users (snd (snd (on_message now (g, st) s m))) = users st"
proof (cases "map_of (sockets g) s")
  case None
  then show ?thesis by (simp add: on_message_def)
next
  case (Some uid)
  show ?thesis
  proof (cases m)
    case (Save e c t)
    obtain out st' where o: "on_save now st s uid e c t = (out, st')" by (cases "on_save now st s uid e c t")
    then have "users st' = users st" using on_save_users[of now st s uid e c t] by simp
    then show ?thesis using Some Save o by (simp add: on_message_def)
  qed (simp_all add: on_message_def Some)
qed

lemma on_message_socket_None:
  assumes "map_of (sockets g) s = None"
  shows "map_of (sockets (fst (snd (on_message now (g, st) s' m)))) s = None"
proof (cases "map_of (sockets g) s'")
  case None
  then show ?thesis using assms by (simp add: on_message_def)
next
  case (Some uid)
  show ?thesis
  proof (cases m)
    case (JoinEntry e)
    then show ?thesis using assms Some
      by (simp add: on_message_def on_joinEntry_def split: option.splits)
  next
    case (TypingMsg e p)
    then show ?thesis using assms Some by (simp add: on_message_def)
  next
    case (Save e c t)
    then show ?thesis using assms Some
      by (simp add: on_message_def split: prod.splits)
  next
    case Disconnect
    have "map_of (AList.delete s' (sockets g)) s = None"
      using assms by (cases "s = s'") (simp_all add: delete_conv')
    then show ?thesis using Some Disconnect by (simp add: on_message_def)
  qed
qed

lemma connect_socket_None:
  assumes "map_of (sockets g) s = None" and "s' \<noteq> s \<or> \<not> authentic jwt_verify st token"
  shows "map_of (sockets (snd (connect jwt_verify st g s' token))) s = None"
proof (cases "authentic jwt_verify st token")
  case True
  then have ne: "s' \<noteq> s" using assms(2) by simp
  from connect_accepted[OF True, of g s'] obtain uid where
    "connect jwt_verify st g s' token = (Accepted, g\<lparr>sockets := AList.update s' uid (sockets g)\<rparr>)"
    by blast
  then show ?thesis using assms(1) ne by (simp add: update_conv')
next
  case False
  from connect_refused[OF False, of g s'] show ?thesis using assms(1) by auto
qed

lemma authentic_users:
  "users st' = users st \<Longrightarrow> authentic jwt_verify st' token = authentic jwt_verify st token"
  by (simp add: authentic_def split: option.splits)

lemma never_authentic_users:
  assumes "users st' = users st"
  shows "never_authentic jwt_verify st' s is = never_authentic jwt_verify st s is"
proof -
  have "authentic jwt_verify st' = authentic jwt_verify st"
    by (rule ext) (simp add: authentic_users[OF assms])
  then show ?thesis unfolding never_authentic_def by (rule arg_cong)
qed

lemma run_without_messages:
  assumes "map_of (sockets g) s = None" and "never_authentic jwt_verify st s is"
  shows "run jwt_verify (g, st) is = run jwt_verify (g, st) (without_messages_of s is) \<and>
         map_of (sockets (fst (snd (run jwt_verify (g, st) is)))) s = None"
  using assms
proof (induction "is" arbitrary: g st)
  case Nil
  then show ?case by (simp add: without_messages_of_def)
next
  case (Cons i "is")
  obtain now inp where i: "i = (now, inp)" by (cases i)
  have rest: "never_authentic jwt_verify st s is"
    using Cons.prems(2) by (simp add: never_authentic_def)
  show ?case
  proof (cases inp)
    case (Connect s' token)
    let ?g' = "snd (connect jwt_verify st g s' token)"
    have cond: "s' \<noteq> s \<or> \<not> authentic jwt_verify st token"
      using Cons.prems(2) i Connect by (simp add: never_authentic_def)
    have g': "map_of (sockets ?g') s = None"
      using connect_socket_None[OF Cons.prems(1) cond] .
    have step: "gateway_step jwt_verify (g, st) i = ([], ?g', st)"
      using i Connect by (simp add: gateway_step_def)
    have keep: "without_messages_of s (i # is) = i # without_messages_of s is"
      using i Connect by (simp add: without_messages_of_def)
    from Cons.IH[OF g' rest] show ?thesis
      by (auto simp: step keep split: prod.splits)
  next
    case (Message s' m)
    show ?thesis
    proof (cases "s' = s")
      case True
      have step: "gateway_step jwt_verify (g, st) i = ([], g, st)"
        using i Message True on_message_unconnected[OF Cons.prems(1)]
        by (simp add: gateway_step_def)
      have drop: "without_messages_of s (i # is) = without_messages_of s is"
        using i Message True by (simp add: without_messages_of_def)
      from Cons.IH[OF Cons.prems(1) rest] show ?thesis
        by (auto simp: step drop split: prod.splits)
    next
      case False
      obtain out g' st' where o: "on_message now (g, st) s' m = (out, g', st')"
        by (cases "on_message now (g, st) s' m")
      have g': "map_of (sockets g') s = None"
        using on_message_socket_None[OF Cons.prems(1), of now st s' m] o by simp
      have u: "users st' = users st"
        using on_message_users[of now g st s' m] o by simp
      have rest': "never_authentic jwt_verify st' s is"
        using rest never_authentic_users[OF u] by simp
      have step: "gateway_step jwt_verify (g, st) i = (out, g', st')"
        using i Message o by (simp add: gateway_step_def)
      have keep: "without_messages_of s (i # is) = i # without_messages_of s is"
        using i Message False by (simp add: without_messages_of_def)
      from Cons.IH[OF g' rest'] show ?thesis
        by (auto simp: step keep split: prod.splits)
    qed
  qed
qed

text \<open>
  C6. A connection attempt without an authentic credential (no token, an empty one, a
  token that does not verify or carries no id, or an id that names no stored user) is
  refused with a reason and leaves the gateway as it is. A message on a socket that is
  not an established connection does nothing. Hence along any sequence of inputs, a
  socket whose connection attempts all lack an authentic credential never becomes a
  connection, and its messages (\<open>joinEntry\<close>, \<open>typing\<close>, \<open>save\<close>) can be struck from the
  sequence without changing the emitted events, the gateway or the database.
\<close>

theorem unauthenticated_refused:
  "(\<not> authentic jwt_verify st token \<longrightarrow>
      (\<exists>reason. reason \<noteq> [] \<and> connect jwt_verify st g s token = (Refused reason, g))) \<and>
   (map_of (sockets g) s = None \<longrightarrow> on_message now (g, st) s m = ([], g, st)) \<and>
   (map_of (sockets g) s = None \<and> never_authentic jwt_verify st s is \<longrightarrow>
      run jwt_verify (g, st) is = run jwt_verify (g, st) (without_messages_of s is) \<and>
      map_of (sockets (fst (snd (run jwt_verify (g, st) is)))) s = None)"
  using connect_refused on_message_unconnected run_without_messages by blast

text \<open>
  A socket that presents no token, then a token that does not verify, and sends a
  \<open>joinEntry\<close> and a \<open>save\<close> for Ann's entry: both attempts are refused and nothing
  happens.
\<close>

theorem unauthenticated_refused_witness:
  "\<not> authentic ann_verify store1 None \<and>
   connect ann_verify store1 \<lparr>sockets = [], rooms = []\<rparr> ''sockX'' None =
     (Refused ''Authentication error: No token provided.'', \<lparr>sockets = [], rooms = []\<rparr>) \<and>
   map_of (sockets \<lparr>sockets = [], rooms = []\<rparr>) ''sockX'' = None \<and>
   on_message 101 (\<lparr>sockets = [], rooms = []\<rparr>, store1) ''sockX''
     (Save (Some (newObjectId 16)) ''v1'' ''Draft'') = ([], \<lparr>sockets = [], rooms = []\<rparr>, store1) \<and>
   never_authentic ann_verify store1 ''sockX''
     [(100, Connect ''sockX'' None), (101, Connect ''sockX'' (Some ''forged'')),
      (102, Message ''sockX'' (JoinEntry (Some (newObjectId 16)))),
      (103, Message ''sockX'' (Save (Some (newObjectId 16)) ''v1'' ''Draft''))] \<and>
   run ann_verify (\<lparr>sockets = [], rooms = []\<rparr>, store1)
     [(100, Connect ''sockX'' None), (101, Connect ''sockX'' (Some ''forged'')),
      (102, Message ''sockX'' (JoinEntry (Some (newObjectId 16)))),
      (103, Message ''sockX'' (Save (Some (newObjectId 16)) ''v1'' ''Draft''))] =
     ([], \<lparr>sockets = [], rooms = []\<rparr>, store1)"
proof -
  let ?g = "\<lparr>sockets = [], rooms = []\<rparr>"
  let ?is = "[(100, Connect ''sockX'' None), (101, Connect ''sockX'' (Some ''forged'')),
      (102, Message ''sockX'' (JoinEntry (Some (newObjectId 16)))),
      (103, Message ''sockX'' (Save (Some (newObjectId 16)) ''v1'' ''Draft''))]"
  have a: "\<not> authentic ann_verify store1 None" by (simp add: authentic_def)
  have c: "connect ann_verify store1 ?g ''sockX'' None =
     (Refused ''Authentication error: No token provided.'', ?g)"
    by (simp add: connect_def io_use_def)
  have n: "map_of (sockets ?g) ''sockX'' = None" by simp
  have na: "never_authentic ann_verify store1 ''sockX'' ?is"
    by (simp add: never_authentic_def authentic_def ann_verify_def)
  have w: "without_messages_of ''sockX'' ?is =
     [(100, Connect ''sockX'' None), (101, Connect ''sockX'' (Some ''forged''))]"
    by (simp add: without_messages_of_def)
  have r: "run ann_verify (?g, store1)
     [(100, Connect ''sockX'' None), (101, Connect ''sockX'' (Some ''forged''))] = ([], ?g, store1)"
    by (simp add: gateway_step_def connect_def io_use_def ann_verify_def)
  from unauthenticated_refused[of ann_verify store1 None ?g "''sockX''" 101
      "Save (Some (newObjectId 16)) ''v1'' ''Draft''" ?is]
  have m: "on_message 101 (?g, store1) ''sockX'' (Save (Some (newObjectId 16)) ''v1'' ''Draft'') =
           ([], ?g, store1)"
    and t: "run ann_verify (?g, store1) ?is = run ann_verify (?g, store1) (without_messages_of ''sockX'' ?is)"
    using n na by blast+
  have "run ann_verify (?g, store1) ?is = ([], ?g, store1)"
    using t w r by simp
  then show ?thesis using a c n m na by blast
qed

section \<open>Conformance of the stored entries is an invariant\<close>

text \<open>
  The update theorem assumes that the stored entries conform to the Entry schema. The
  assumption excludes nothing the handlers can produce: casting is idempotent, and every
  handler that writes entries keeps them conforming.
\<close>

lemma dropWhile_hd_id: "xs \<noteq> [] \<Longrightarrow> \<not> P (hd xs) \<Longrightarrow> dropWhile P xs = xs"
  by (cases xs) auto

lemma trim_idem: "trim (trim s) = trim s"
proof (cases "trim s = []")
  case True
  have "trim [] = []" by (simp add: trim_def)
  then show ?thesis using True by simp
next
  case False
  from trim_ends[OF False] have h: "\<not> isWhiteSpace (hd (trim s))" and l: "\<not> isWhiteSpace (last (trim s))"
    by auto
  have 1: "dropWhile isWhiteSpace (trim s) = trim s"
    using False h by (rule dropWhile_hd_id)
  have "hd (rev (trim s)) = last (trim s)" using False by (simp add: hd_rev)
  then have 2: "dropWhile isWhiteSpace (rev (trim s)) = rev (trim s)"
    using False l by (simp add: dropWhile_hd_id)
  show ?thesis
    unfolding trim_def[of "trim s"] by (simp add: 1 2)
qed

lemma castv_idem: "castv p v = Some v' \<Longrightarrow> castv p v' = Some v'"
  by (cases v; cases "ptype p") (auto simp: trim_idem split: if_splits)

lemma conforms_update_undeclared:
  assumes "k \<notin> fst ` set (paths S)"
  shows "conforms S (AList.update k v d) = conforms S d"
proof -
  have "\<And>a b. (a, b) \<in> set (paths S) \<Longrightarrow> a \<noteq> k" using assms by force
  then show ?thesis
    unfolding conforms_def list_all_iff by (auto simp: update_conv')
qed

lemma conforms_update_declared:
  assumes "conforms S d" and "\<And>p. (k, p) \<in> set (paths S) \<Longrightarrow> castv p v = Some v"
  shows "conforms S (AList.update k v d)"
  using assms unfolding conforms_def list_all_iff
  by (auto simp: update_conv')

lemma conforms_delete: "conforms S d \<Longrightarrow> conforms S (AList.delete k d)"
  unfolding conforms_def list_all_iff
  by (auto simp: delete_conv' split: option.splits if_splits)

lemma entry_paths_declared:
  "(k, p) \<in> set (paths entrySchema) \<Longrightarrow> path_of entrySchema k = Some p"
  by (auto simp: entrySchema_def path_of_def)

lemma entry_paths_undeclared:
  "''_id'' \<notin> fst ` set (paths entrySchema)" "''createdAt'' \<notin> fst ` set (paths entrySchema)"
  "''updatedAt'' \<notin> fst ` set (paths entrySchema)"
  by (auto simp: entrySchema_def)

lemma stamp_conforms:
  "conforms entrySchema (rawDoc doc) \<Longrightarrow> conforms entrySchema (stamp entrySchema now doc)"
  by (simp add: stamp_def conforms_update_undeclared entry_paths_undeclared)

lemma pre_save_conforms:
  assumes "conforms entrySchema d" and "pre_save entrySchema isModified d = Inr d'"
  shows "conforms entrySchema d'"
proof -
  have t: "\<And>p xs. (''tags'', p) \<in> set (paths entrySchema) \<Longrightarrow> castv p (VArr xs) = Some (VArr xs)"
    by (auto simp: entrySchema_def plain_def)
  show ?thesis using assms conforms_update_declared[OF assms(1), of "''tags''"] t
    by (auto simp: entrySchema_def[THEN arg_cong, of pre_save] entrySchema_pre_save_def
        split: if_splits option.splits val.splits)
qed

lemma list_all_update_first:
  "list_all Q xs \<Longrightarrow> (\<And>x. Q x \<Longrightarrow> Q (f x)) \<Longrightarrow> list_all Q (update_first P f xs)"
  by (induction xs) auto

lemma list_all_remove_first: "list_all Q xs \<Longrightarrow> list_all Q (remove_first P xs)"
  by (induction xs) auto

lemma save_conforms:
  assumes "save entrySchema now doc coll = Inr (d, coll')"
    and "conforms entrySchema (rawDoc doc)" and "list_all (conforms entrySchema) coll"
  shows "conforms entrySchema d \<and> list_all (conforms entrySchema) coll'"
proof -
  from assms(1) obtain d0 where
    p: "pre_save entrySchema (\<lambda>k. k \<in> set (modifiedPaths doc)) (stamp entrySchema now doc) = Inr d0"
    by (auto simp: save_def split: if_splits sum.splits)
  have d: "d = d0" using assms(1) p by (auto simp: save_def split: if_splits)
  have c: "conforms entrySchema d"
    using pre_save_conforms[OF stamp_conforms[OF assms(2)] p] d by simp
  have "list_all (conforms entrySchema) coll'"
    using assms(1,3) p c d
    by (auto simp: save_def list_all_update_first split: if_splits)
  then show ?thesis using c by simp
qed

lemma set_path_conforms:
  assumes "conforms entrySchema (rawDoc doc)"
  shows "conforms entrySchema (rawDoc (set_path entrySchema doc k v))"
proof (cases "path_of entrySchema k")
  case None
  then show ?thesis using assms by (simp add: set_path_def)
next
  case (Some p)
  show ?thesis
  proof (cases v)
    case None
    then show ?thesis using assms Some by (simp add: set_path_def conforms_delete)
  next
    case (Some x)
    show ?thesis
    proof (cases "castv p x")
      case None
      then show ?thesis using assms \<open>path_of entrySchema k = Some p\<close> Some
        by (simp add: set_path_def)
    next
      case (Some x')
      have "\<And>p'. (k, p') \<in> set (paths entrySchema) \<Longrightarrow> castv p' x' = Some x'"
        using entry_paths_declared \<open>path_of entrySchema k = Some p\<close> castv_idem[OF Some] by fastforce
      then have "conforms entrySchema (AList.update k x' (rawDoc doc))"
        using conforms_update_declared[OF assms] by blast
      then show ?thesis using assms \<open>path_of entrySchema k = Some p\<close> \<open>v = Some x\<close> Some
        by (simp add: set_path_def)
    qed
  qed
qed

lemma init_paths_keys:
  "k \<notin> fst ` set ps \<Longrightarrow> map_of (fst (init_paths ps given)) k = None"
  by (induction ps) (auto split: prod.splits option.splits)

lemma map_of_init_paths:
  "distinct (map fst ps) \<Longrightarrow> (k, p) \<in> set ps \<Longrightarrow>
   map_of (fst (init_paths ps given)) k =
     (case map_of given k of None \<Rightarrow> default_val p | Some v \<Rightarrow> castv p v)"
proof (induction ps)
  case Nil
  then show ?case by simp
next
  case (Cons a ps)
  obtain k' p' where a: "a = (k', p')" by (cases a)
  show ?case
  proof (cases "k' = k")
    case True
    have notin: "k \<notin> fst ` set ps" using Cons.prems(1) a True by simp
    then have "p' = p" using Cons.prems(2) a by force
    moreover have "map_of (fst (init_paths ps given)) k = None"
      using notin by (rule init_paths_keys)
    ultimately show ?thesis using a True
      by (auto split: prod.splits option.splits)
  next
    case False
    then have "(k, p) \<in> set ps" using Cons.prems a by auto
    moreover have "distinct (map fst ps)" using Cons.prems(1) by simp
    ultimately have "map_of (fst (init_paths ps given)) k =
     (case map_of given k of None \<Rightarrow> default_val p | Some v \<Rightarrow> castv p v)"
      by (rule Cons.IH[rotated])
    then show ?thesis using a False
      by (auto split: prod.splits option.splits)
  qed
qed

lemma entry_paths_distinct: "distinct (map fst (paths entrySchema))"
  by (simp add: entrySchema_def)

lemma entry_default_conforms:
  "(k, p) \<in> set (paths entrySchema) \<Longrightarrow> default_val p = Some x \<Longrightarrow> castv p x = Some x"
  by (auto simp: entrySchema_def plain_def)

lemma new_doc_conforms: "conforms entrySchema (rawDoc (new_doc entrySchema i given))"
proof -
  obtain d bad where ip: "init_paths (paths entrySchema) given = (d, bad)"
    by (cases "init_paths (paths entrySchema) given")
  have "case map_of ((''_id'', VId i) # d) k of None \<Rightarrow> True | Some v \<Rightarrow> castv p v = Some v"
    if kp: "(k, p) \<in> set (paths entrySchema)" for k p
  proof -
    have ne: "k \<noteq> ''_id''" using kp entry_paths_undeclared(1) by force
    have m: "map_of d k = (case map_of given k of None \<Rightarrow> default_val p | Some v \<Rightarrow> castv p v)"
      using map_of_init_paths[OF entry_paths_distinct kp, of given] ip by simp
    show ?thesis
      using ne m entry_default_conforms[OF kp] castv_idem
      by (auto split: option.splits)
  qed
  then show ?thesis
    unfolding conforms_def list_all_iff by (auto simp: new_doc_def ip)
qed

lemma createJournal_conforms:
  assumes "list_all (conforms entrySchema) (entries st)"
  shows "list_all (conforms entrySchema) (entries (snd (createJournal now st uid title content)))"
proof (cases "save entrySchema now
                (new_doc entrySchema (newObjectId (idCounter st))
                   (object [(''title'', map_option VStr title),
                            (''content'', map_option VStr content),
                            (''user'', Some (VId uid))]))
                (entries st)")
  case (Inl e)
  then show ?thesis using assms by (simp add: createJournal_def asyncHandler_def)
next
  case (Inr r)
  obtain d es where r: "r = (d, es)" by (cases r)
  from save_conforms[OF Inr[unfolded r] new_doc_conforms assms]
  have "list_all (conforms entrySchema) es" by simp
  then show ?thesis using assms Inr r by (simp add: createJournal_def asyncHandler_def)
qed

lemma deleteJournal_conforms:
  assumes "list_all (conforms entrySchema) (entries st)"
  shows "list_all (conforms entrySchema) (entries (snd (deleteJournal st uid jid)))"
  using assms
  by (auto simp: deleteJournal_def asyncHandler_def deleteOne_def list_all_remove_first
      split: sum.splits option.splits)

lemma hydrate_entry_conforms:
  assumes "conforms entrySchema d"
  shows "conforms entrySchema (rawDoc (hydrate entrySchema d))"
proof -
  have "case map_of (rawDoc (hydrate entrySchema d)) k of None \<Rightarrow> True
        | Some v \<Rightarrow> castv p v = Some v"
    if kp: "(k, p) \<in> set (paths entrySchema)" for k p
  proof -
    have old: "case map_of d k of None \<Rightarrow> True | Some v \<Rightarrow> castv p v = Some v"
      using assms kp unfolding conforms_def list_all_iff by auto
    have new: "castv p (VArr []) = Some (VArr [])" if "k = ''tags''"
      using kp that by (auto simp: entrySchema_def plain_def)
    show ?thesis
      using old new by (auto simp: hydrate_entry_raw split: option.splits)
  qed
  then show ?thesis
    unfolding conforms_def list_all_iff by auto
qed

lemma find_conforms:
  "list_all Q xs \<Longrightarrow> find P xs = Some x \<Longrightarrow> Q x"
  by (auto simp: list_all_iff dest: find_Some_D)

lemma updateJournal_conforms:
  assumes "list_all (conforms entrySchema) (entries st)"
  shows "list_all (conforms entrySchema) (entries (snd (updateJournal now st uid jid title content)))"
proof -
  have "list_all (conforms entrySchema) es"
    if "findById entrySchema (entries st) (Some jid) = Inr (Some journal)"
      and "save entrySchema now
             (set_path entrySchema (set_path entrySchema (hydrate entrySchema journal) ''title'' a) ''content'' b)
             (entries st) = Inr (d, es)" for journal a b d es
  proof -
    have "conforms entrySchema journal"
      using that(1) assms by (auto simp: findById_entry split: option.splits dest: find_conforms)
    then have "conforms entrySchema (rawDoc (hydrate entrySchema journal))"
      by (rule hydrate_entry_conforms)
    then have "conforms entrySchema
        (rawDoc (set_path entrySchema (set_path entrySchema (hydrate entrySchema journal) ''title'' a) ''content'' b))"
      by (intro set_path_conforms)
    from save_conforms[OF that(2) this assms] show ?thesis by simp
  qed
  then show ?thesis using assms
    by (auto simp: updateJournal_def asyncHandler_def Let_def split: sum.splits option.splits)
qed

lemma restoreVersion_conforms:
  assumes "list_all (conforms entrySchema) (entries st)"
  shows "list_all (conforms entrySchema)
           (entries (snd (restoreVersion (versionSchema sq) now st uid entryId versionId)))"
  using assms by (simp add: restoreVersion_never_succeeds)

lemma apply_update_conforms:
  assumes "conforms entrySchema d"
  shows "conforms entrySchema
           (apply_update entrySchema now [(''content'', VStr c), (''title'', VStr (trim t))] d)"
proof -
  have c: "\<And>p. (''content'', p) \<in> set (paths entrySchema) \<Longrightarrow> castv p (VStr c) = Some (VStr c)"
    by (auto simp: entrySchema_def plain_def)
  have t: "\<And>p. (''title'', p) \<in> set (paths entrySchema) \<Longrightarrow>
             castv p (VStr (trim t)) = Some (VStr (trim t))"
    by (auto simp: entrySchema_def plain_def trim_idem)
  have "conforms entrySchema (AList.update ''content'' (VStr c)
          (AList.update ''title'' (VStr (trim t)) d))"
    by (intro conforms_update_declared assms c t)
  then show ?thesis
    by (simp add: apply_update_def conforms_update_undeclared entry_paths_undeclared
        entrySchema_def[THEN arg_cong, of timestamps])
qed

lemma on_save_conforms:
  assumes "list_all (conforms entrySchema) (entries st)"
  shows "list_all (conforms entrySchema) (entries (snd (on_save now st s uid entryId content title)))"
  using assms
  by (auto simp: on_save_def findOneAndUpdate_def cast_update_content_title
      list_all_update_first apply_update_conforms
      simp del: cast_update.simps cast_filter.simps
      split: option.splits sum.splits)

theorem entries_stay_conforming:
  assumes "list_all (conforms entrySchema) (entries st)"
  shows "list_all (conforms entrySchema) (entries (snd (createJournal now st uid title content))) \<and>
         list_all (conforms entrySchema) (entries (snd (updateJournal now st uid jid title content))) \<and>
         list_all (conforms entrySchema) (entries (snd (deleteJournal st uid jid))) \<and>
         list_all (conforms entrySchema)
           (entries (snd (restoreVersion (versionSchema sq) now st uid jid versionId))) \<and>
         list_all (conforms entrySchema)
           (entries (snd (on_save now st s uid entryId text heading)))"
  by (intro conjI createJournal_conforms updateJournal_conforms deleteJournal_conforms
      restoreVersion_conforms on_save_conforms assms)

end
